theory Spec2Isabelle
  imports Complex_Main
begin

section \<open>Python strings\<close>

text \<open>
  A Python \<open>str\<close> is a sequence of Unicode code points; a code point is a natural
  number. \<open>ascii\<close> turns an ASCII literal into such a sequence.
\<close>

type_synonym ustr = "nat list"

definition ascii :: "string \<Rightarrow> ustr" where
  "ascii s = map of_char s"

text \<open>
  \<open>str.isspace\<close> for one code point; the regular expression class \<open>\s\<close> and
  \<open>str.strip\<close> use the same set.
\<close>

definition py_isspace :: "nat \<Rightarrow> bool" where
  "py_isspace c \<longleftrightarrow>
     (9 \<le> c \<and> c \<le> 13) \<or> (28 \<le> c \<and> c \<le> 32) \<or> c = 133 \<or> c = 160 \<or> c = 5760 \<or>
     (8192 \<le> c \<and> c \<le> 8202) \<or> c = 8232 \<or> c = 8233 \<or> c = 8239 \<or> c = 8287 \<or> c = 12288"

text \<open>
  The rest of the Unicode character database is not part of the repository. It is a
  parameter: the alphanumeric test behind \<open>\w\<close> for code points above ASCII,
  \<open>str.lower\<close>, \<open>str.upper\<close>, and the equivalence of two code points under
  \<open>re.IGNORECASE\<close>.
\<close>

record unicode_db =
  u_isalnum :: "nat \<Rightarrow> bool"
  u_lower :: "ustr \<Rightarrow> ustr"
  u_upper :: "ustr \<Rightarrow> ustr"
  u_ci_eq :: "nat \<Rightarrow> nat \<Rightarrow> bool"

definition ascii_alnum :: "nat \<Rightarrow> bool" where
  "ascii_alnum c \<longleftrightarrow> (48 \<le> c \<and> c \<le> 57) \<or> (65 \<le> c \<and> c \<le> 90) \<or> (97 \<le> c \<and> c \<le> 122)"

text \<open>The class \<open>\w\<close>: alphanumeric or underscore.\<close>

definition is_word :: "unicode_db \<Rightarrow> nat \<Rightarrow> bool" where
  "is_word db c \<longleftrightarrow> c = 95 \<or> (if c < 128 then ascii_alnum c else u_isalnum db c)"

definition lstrip :: "ustr \<Rightarrow> ustr" where
  "lstrip s = dropWhile py_isspace s"

definition rstrip :: "ustr \<Rightarrow> ustr" where
  "rstrip s = rev (dropWhile py_isspace (rev s))"

definition strip :: "ustr \<Rightarrow> ustr" where
  "strip s = rstrip (lstrip s)"

definition startswith :: "ustr \<Rightarrow> ustr \<Rightarrow> bool" where
  "startswith s p \<longleftrightarrow> take (length p) s = p"

text \<open>\<open>s.split(sep)\<close> for a separator of one code point.\<close>

fun split_on :: "nat \<Rightarrow> ustr \<Rightarrow> ustr list" where
  "split_on d [] = [[]]"
| "split_on d (c # cs) =
     (if c = d then [] # split_on d cs
      else (c # hd (split_on d cs)) # tl (split_on d cs))"

text \<open>\<open>re.sub(r'\s+', ' ', s)\<close>: every maximal run of whitespace becomes one space.\<close>

function sub_whitespace :: "ustr \<Rightarrow> ustr" where
  "sub_whitespace [] = []"
| "sub_whitespace (c # cs) =
     (if py_isspace c then 32 # sub_whitespace (dropWhile py_isspace cs)
      else c # sub_whitespace cs)"
  by pat_completeness auto
termination
  by (relation "measure length") (auto simp: length_dropWhile_le less_Suc_eq_le)

text \<open>
  A literal pattern (\<open>re.escape\<close>) searched with \<open>re.IGNORECASE\<close>: the pattern
  occurs at some offset, code point by code point up to case.
\<close>

fun ci_prefix :: "(nat \<Rightarrow> nat \<Rightarrow> bool) \<Rightarrow> ustr \<Rightarrow> ustr \<Rightarrow> bool" where
  "ci_prefix eq [] s = True"
| "ci_prefix eq (p # ps) [] = False"
| "ci_prefix eq (p # ps) (c # cs) = (eq p c \<and> ci_prefix eq ps cs)"

fun str_contains :: "(nat \<Rightarrow> nat \<Rightarrow> bool) \<Rightarrow> ustr \<Rightarrow> ustr \<Rightarrow> bool" where
  "str_contains eq pat [] = ci_prefix eq pat []"
| "str_contains eq pat (c # cs) = (ci_prefix eq pat (c # cs) \<or> str_contains eq pat cs)"

text \<open>\<open>xs[:n]\<close>: a negative bound counts from the end.\<close>

definition py_slice_to :: "int \<Rightarrow> 'a list \<Rightarrow> 'a list" where
  "py_slice_to n xs = (if 0 \<le> n then take (nat n) xs else take (length xs - nat (- n)) xs)"

section \<open>The question bank (excel_handler.py)\<close>

subsection \<open>Text cleaning and the blended score\<close>

text \<open>
  Code points outside the class of word characters, whitespace and the three ranges
  U+3040..U+309F, U+30A0..U+30FF, U+4E00..U+9FAF are removed: a code
  point is kept when it is a word character, whitespace, or in one of the three ranges.
\<close>

definition keep_char :: "unicode_db \<Rightarrow> nat \<Rightarrow> bool" where
  "keep_char db c \<longleftrightarrow>
     is_word db c \<or> py_isspace c \<or> (12352 \<le> c \<and> c \<le> 12447) \<or>
     (12448 \<le> c \<and> c \<le> 12543) \<or> (19968 \<le> c \<and> c \<le> 40879)"

definition clean_question_text :: "unicode_db \<Rightarrow> ustr \<Rightarrow> ustr" where
  "clean_question_text db text =
     (if text = [] then []
      else u_lower db (filter (keep_char db) (sub_whitespace (strip text))))"

text \<open>
  The four measures of the similarity library (\<open>fuzz.ratio\<close>, \<open>fuzz.partial_ratio\<close>,
  \<open>fuzz.token_sort_ratio\<close>, \<open>fuzz.token_set_ratio\<close>) are a parameter; each returns an
  integer percentage. Scores are Python floats in the source and rationals here.
\<close>

record fuzz =
  fuzz_ratio :: "ustr \<Rightarrow> ustr \<Rightarrow> int"
  fuzz_partial_ratio :: "ustr \<Rightarrow> ustr \<Rightarrow> int"
  fuzz_token_sort_ratio :: "ustr \<Rightarrow> ustr \<Rightarrow> int"
  fuzz_token_set_ratio :: "ustr \<Rightarrow> ustr \<Rightarrow> int"

text \<open>The documented range of the library: every measure is a percentage.\<close>

definition percent :: "int \<Rightarrow> bool" where
  "percent n \<longleftrightarrow> 0 \<le> n \<and> n \<le> 100"

definition fuzz_in_range :: "fuzz \<Rightarrow> ustr \<Rightarrow> ustr \<Rightarrow> bool" where
  "fuzz_in_range fz q t \<longleftrightarrow>
     percent (fuzz_ratio fz q t) \<and> percent (fuzz_partial_ratio fz q t) \<and>
     percent (fuzz_token_sort_ratio fz q t) \<and> percent (fuzz_token_set_ratio fz q t)"

text \<open>The library scores a string against itself with 100 on every measure.\<close>

definition fuzz_identical :: "fuzz \<Rightarrow> ustr \<Rightarrow> bool" where
  "fuzz_identical fz s \<longleftrightarrow>
     fuzz_ratio fz s s = 100 \<and> fuzz_partial_ratio fz s s = 100 \<and>
     fuzz_token_sort_ratio fz s s = 100 \<and> fuzz_token_set_ratio fz s s = 100"

text \<open>The four sub-measures as computed in \<open>_calculate_match_score\<close>, in its order.\<close>

definition sub_scores :: "fuzz \<Rightarrow> ustr \<Rightarrow> ustr \<Rightarrow> rat list" where
  "sub_scores fz query target =
     [of_int (fuzz_ratio fz query target) / 100,
      of_int (fuzz_partial_ratio fz query target) / 100,
      of_int (fuzz_token_sort_ratio fz query target) / 100,
      of_int (fuzz_token_set_ratio fz query target) / 100]"

definition weights :: "rat list" where
  "weights = [2 / 10, 3 / 10, 25 / 100, 25 / 100]"

definition calculate_match_score :: "fuzz \<Rightarrow> ustr \<Rightarrow> ustr \<Rightarrow> rat" where
  "calculate_match_score fz query target =
     (if query = [] \<or> target = [] then 0
      else sum_list (map (\<lambda>(w, s). w * s) (zip weights (sub_scores fz query target))))"

text \<open>
  Modelled from the spec: the four measures of the similarity library, which the repository
  imports without containing it. The specification says of them that each sub-measure is in
  [0,1], that is a percentage from 0 to 100 before the division by 100 in
  \<open>_calculate_match_score\<close>, and that an identical query/target pair yields 1.0 on the
  character ratio. \<open>spec_fuzz raw\<close> is such a library over arbitrary values \<open>raw\<close>:
  every measure is cut to the percentages, and the character ratio of a non-empty string
  against itself is 100. A library that meets both sentences is its own \<open>spec_fuzz\<close>.
\<close>

definition cut_percent :: "int \<Rightarrow> int" where
  "cut_percent n = max 0 (min 100 n)"

definition spec_fuzz :: "fuzz \<Rightarrow> fuzz" where
  "spec_fuzz raw =
     \<lparr>fuzz_ratio = (\<lambda>q t. if q = t \<and> q \<noteq> [] then 100 else cut_percent (fuzz_ratio raw q t)),
      fuzz_partial_ratio = (\<lambda>q t. cut_percent (fuzz_partial_ratio raw q t)),
      fuzz_token_sort_ratio = (\<lambda>q t. cut_percent (fuzz_token_sort_ratio raw q t)),
      fuzz_token_set_ratio = (\<lambda>q t. cut_percent (fuzz_token_set_ratio raw q t))\<rparr>"

subsection \<open>Sheets, configuration and results\<close>

text \<open>
  A cell of a loaded sheet is a string, a missing value, or another scalar that carries
  its \<open>str()\<close> rendering. A row gives a cell for every column of its sheet; the row
  index after \<open>reset_index\<close> is the position. \<open>df_str_columns\<close> lists the columns
  of object dtype, the ones whose \<open>.str\<close> accessor exists.
\<close>

datatype cell = Str ustr | NaN | Val ustr

fun py_str :: "cell \<Rightarrow> ustr" where
  "py_str (Str s) = s"
| "py_str NaN = [110, 97, 110]"
| "py_str (Val s) = s"

fun notna :: "cell \<Rightarrow> bool" where
  "notna NaN = False"
| "notna c = True"

record dataframe =
  df_columns :: "ustr list"
  df_str_columns :: "ustr list"
  df_rows :: "(ustr \<Rightarrow> cell) list"

record sheet_config =
  question_column :: "ustr option"
  answer_columns :: "ustr list"
  correct_answer_column :: "ustr option"

record fuzzy_config =
  threshold :: "rat option"
  max_results :: "int option"

record excel_handler =
  sheets_config :: "(ustr \<times> sheet_config) list"
  fuzzy_cfg :: fuzzy_config
  cache :: "(ustr \<times> dataframe) list"

record answer_info =
  options :: "(ustr \<times> ustr) list"
  correct_answer :: ustr
  answer_text :: ustr

record match_result =
  sheet_name :: ustr
  row_index :: nat
  question :: ustr
  match_score :: rat
  answer_inf :: answer_info
  matched_method :: string

definition get_threshold :: "excel_handler \<Rightarrow> rat" where
  "get_threshold eh = (case threshold (fuzzy_cfg eh) of None \<Rightarrow> 8 / 10 | Some t \<Rightarrow> t)"

definition get_max_results :: "excel_handler \<Rightarrow> int" where
  "get_max_results eh = (case max_results (fuzzy_cfg eh) of None \<Rightarrow> 3 | Some m \<Rightarrow> m)"

subsection \<open>Answer extraction\<close>

text \<open>
  The loop over \<open>enumerate(answer_columns)\<close>. The label of position \<open>i\<close> is
  \<open>chr(65 + i)\<close>, which raises beyond the last code point; the flag of the result is
  False when that happened, and the options collected so far stay in the dictionary.
\<close>

fun extract_options ::
  "ustr list \<Rightarrow> (ustr \<Rightarrow> cell) \<Rightarrow> nat \<Rightarrow> ustr list \<Rightarrow> (ustr \<times> ustr) list \<Rightarrow> (ustr \<times> ustr) list \<times> bool"
where
  "extract_options cols row i [] acc = (acc, True)"
| "extract_options cols row i (col # rest) acc =
     (if col \<in> set cols \<and> notna (row col)
      then (if 65 + i > 1114111 then (acc, False)
            else extract_options cols row (Suc i) rest (acc @ [([65 + i], py_str (row col))]))
      else extract_options cols row (Suc i) rest acc)"

definition extract_answer_info ::
  "unicode_db \<Rightarrow> ustr list \<Rightarrow> (ustr \<Rightarrow> cell) \<Rightarrow> sheet_config \<Rightarrow> answer_info" where
  "extract_answer_info db cols row cfg =
     (case extract_options cols row 0 (answer_columns cfg) [] of
        (opts, False) \<Rightarrow> \<lparr>options = opts, correct_answer = [], answer_text = []\<rparr>
      | (opts, True) \<Rightarrow>
          (case correct_answer_column cfg of
             None \<Rightarrow> \<lparr>options = opts, correct_answer = [], answer_text = []\<rparr>
           | Some cc \<Rightarrow>
               if cc \<noteq> [] \<and> cc \<in> set cols \<and> notna (row cc)
               then (let ca = py_str (row cc) in
                     case map_of opts (u_upper db ca) of
                       Some t \<Rightarrow> \<lparr>options = opts, correct_answer = ca, answer_text = t\<rparr>
                     | None \<Rightarrow> \<lparr>options = opts, correct_answer = ca, answer_text = ca\<rparr>)
               else \<lparr>options = opts, correct_answer = [], answer_text = []\<rparr>))"

subsection \<open>Searching one sheet\<close>

definition exact_result ::
  "unicode_db \<Rightarrow> dataframe \<Rightarrow> ustr \<Rightarrow> sheet_config \<Rightarrow> ustr \<Rightarrow> nat \<Rightarrow> (ustr \<Rightarrow> cell) \<Rightarrow> match_result" where
  "exact_result db df name cfg qc idx row =
     \<lparr>sheet_name = name, row_index = idx, question = py_str (row qc), match_score = 1,
      answer_inf = extract_answer_info db (df_columns df) row cfg, matched_method = ''exact''\<rparr>"

text \<open>
  \<open>Series.str.contains(pat, case=False, na=False)\<close> on one cell: a string is searched,
  anything else counts as no hit.
\<close>

fun cell_contains :: "(nat \<Rightarrow> nat \<Rightarrow> bool) \<Rightarrow> ustr \<Rightarrow> cell \<Rightarrow> bool" where
  "cell_contains eq pat (Str s) = str_contains eq pat s"
| "cell_contains eq pat c = False"

text \<open>
  Every exception inside \<open>_exact_search_in_sheet\<close> is caught and gives the empty list:
  a sheet that is not loaded, a question column that is no column of the sheet, a column
  without the \<open>.str\<close> accessor.
\<close>

definition exact_search_in_sheet ::
  "unicode_db \<Rightarrow> excel_handler \<Rightarrow> ustr \<Rightarrow> ustr \<Rightarrow> sheet_config \<Rightarrow> match_result list" where
  "exact_search_in_sheet db eh question_text name cfg =
     (case map_of (cache eh) name of
        None \<Rightarrow> []
      | Some df \<Rightarrow>
          (case question_column cfg of
             None \<Rightarrow> []
           | Some qc \<Rightarrow>
               if qc \<notin> set (df_columns df) then []
               else if qc \<notin> set (df_str_columns df) then []
               else map (\<lambda>(idx, row). exact_result db df name cfg qc idx row)
                      (filter (\<lambda>(idx, row). cell_contains (u_ci_eq db) question_text (row qc))
                         (enumerate 0 (df_rows df)))))"

definition fuzzy_result ::
  "unicode_db \<Rightarrow> fuzz \<Rightarrow> dataframe \<Rightarrow> ustr \<Rightarrow> sheet_config \<Rightarrow> ustr \<Rightarrow> ustr \<Rightarrow> nat \<Rightarrow> (ustr \<Rightarrow> cell) \<Rightarrow> match_result" where
  "fuzzy_result db fz df name cfg qc cleaned idx row =
     \<lparr>sheet_name = name, row_index = idx, question = py_str (row qc),
      match_score = calculate_match_score fz cleaned (clean_question_text db (py_str (row qc))),
      answer_inf = extract_answer_info db (df_columns df) row cfg, matched_method = ''fuzzy''\<rparr>"

text \<open>One pass of the loop over \<open>df.iterrows()\<close>: no result, or the fuzzy result of the row.\<close>

definition fuzzy_row ::
  "unicode_db \<Rightarrow> fuzz \<Rightarrow> excel_handler \<Rightarrow> dataframe \<Rightarrow> ustr \<Rightarrow> sheet_config \<Rightarrow> ustr \<Rightarrow> ustr \<Rightarrow> nat \<times> (ustr \<Rightarrow> cell) \<Rightarrow> match_result list" where
  "fuzzy_row db fz eh df name cfg qc cleaned ir =
     (let db_question = py_str (snd ir qc) in
      if db_question = [] \<or> db_question = [110, 97, 110] then []
      else if get_threshold eh \<le> calculate_match_score fz cleaned (clean_question_text db db_question)
      then [fuzzy_result db fz df name cfg qc cleaned (fst ir) (snd ir)]
      else [])"

definition search_in_sheet ::
  "unicode_db \<Rightarrow> fuzz \<Rightarrow> excel_handler \<Rightarrow> ustr \<Rightarrow> ustr \<Rightarrow> sheet_config \<Rightarrow> match_result list" where
  "search_in_sheet db fz eh question_text name cfg =
     (case map_of (cache eh) name of
        None \<Rightarrow> []
      | Some df \<Rightarrow>
          (case question_column cfg of
             None \<Rightarrow> []
           | Some qc \<Rightarrow>
               if qc = [] \<or> qc \<notin> set (df_columns df) then []
               else (let cleaned_question = clean_question_text db question_text;
                         results = concat (map (fuzzy_row db fz eh df name cfg qc cleaned_question)
                                             (enumerate 0 (df_rows df)));
                         exact_matches = exact_search_in_sheet db eh cleaned_question name cfg
                     in results @ exact_matches)))"

subsection \<open>Searching the bank\<close>

definition all_results ::
  "unicode_db \<Rightarrow> fuzz \<Rightarrow> excel_handler \<Rightarrow> ustr \<Rightarrow> match_result list" where
  "all_results db fz eh question_text =
     concat (map (\<lambda>(name, cfg).
                    if map_of (cache eh) name = None then []
                    else search_in_sheet db fz eh question_text name cfg)
               (sheets_config eh))"

text \<open>
  \<open>list.sort(key=..., reverse=True)\<close> is stable: results of equal score keep their
  order. So is \<open>sort_key\<close> on the negated score.
\<close>

definition search_question ::
  "unicode_db \<Rightarrow> fuzz \<Rightarrow> excel_handler \<Rightarrow> ustr \<Rightarrow> match_result list" where
  "search_question db fz eh question_text =
     py_slice_to (get_max_results eh)
       (sort_key (\<lambda>r. - match_score r) (all_results db fz eh question_text))"

subsection \<open>The contract of the lookup, in the words of the specification\<close>

text \<open>
  A match of a sheet is the fuzzy match of a row that has a question text, with its
  blended score, or an exact match, with score 1. The contract: all matches across every
  configured sheet with a score at or above the threshold, sorted by descending score,
  truncated to the maximum count.
\<close>

definition fuzzy_candidate ::
  "unicode_db \<Rightarrow> fuzz \<Rightarrow> dataframe \<Rightarrow> ustr \<Rightarrow> sheet_config \<Rightarrow> ustr \<Rightarrow> ustr \<Rightarrow> nat \<times> (ustr \<Rightarrow> cell) \<Rightarrow> match_result list" where
  "fuzzy_candidate db fz df name cfg qc cleaned ir =
     (if py_str (snd ir qc) = [] \<or> py_str (snd ir qc) = [110, 97, 110] then []
      else [fuzzy_result db fz df name cfg qc cleaned (fst ir) (snd ir)])"

definition sheet_matches ::
  "unicode_db \<Rightarrow> fuzz \<Rightarrow> excel_handler \<Rightarrow> ustr \<Rightarrow> ustr \<Rightarrow> sheet_config \<Rightarrow> match_result list" where
  "sheet_matches db fz eh question_text name cfg =
     (case map_of (cache eh) name of
        None \<Rightarrow> []
      | Some df \<Rightarrow>
          (case question_column cfg of
             None \<Rightarrow> []
           | Some qc \<Rightarrow>
               if qc = [] \<or> qc \<notin> set (df_columns df) then []
               else concat (map (fuzzy_candidate db fz df name cfg qc (clean_question_text db question_text))
                              (enumerate 0 (df_rows df))) @
                    exact_search_in_sheet db eh (clean_question_text db question_text) name cfg))"

definition spec_search_question ::
  "unicode_db \<Rightarrow> fuzz \<Rightarrow> excel_handler \<Rightarrow> ustr \<Rightarrow> match_result list" where
  "spec_search_question db fz eh question_text =
     take (nat (get_max_results eh))
       (sort_key (\<lambda>r. - match_score r)
          (filter (\<lambda>r. get_threshold eh \<le> match_score r)
             (concat (map (\<lambda>(name, cfg). sheet_matches db fz eh question_text name cfg)
                        (sheets_config eh)))))"

text \<open>
  The lookup as the code has it: the threshold is tested on the fuzzy matches only, and an
  exact match is kept whatever the threshold. \<open>kept_match\<close> is that test, and
  \<open>lookup_contract\<close> the matches of all configured sheets that pass it, sorted by
  descending score and cut by the slice \<open>[:max_results]\<close>.
\<close>

definition kept_match :: "excel_handler \<Rightarrow> match_result \<Rightarrow> bool" where
  "kept_match eh r \<longleftrightarrow> matched_method r = ''exact'' \<or> get_threshold eh \<le> match_score r"

definition lookup_contract ::
  "unicode_db \<Rightarrow> fuzz \<Rightarrow> excel_handler \<Rightarrow> ustr \<Rightarrow> match_result list" where
  "lookup_contract db fz eh question_text =
     py_slice_to (get_max_results eh)
       (sort_key (\<lambda>r. - match_score r)
          (filter (kept_match eh)
             (concat (map (\<lambda>(name, cfg). sheet_matches db fz eh question_text name cfg)
                        (sheets_config eh)))))"

text \<open>
  Every row of a sheet whose question cell is a string, as an exact match: what the
  exact pass reports for the empty query.
\<close>

definition is_string :: "cell \<Rightarrow> bool" where
  "is_string c = (case c of Str s \<Rightarrow> True | _ \<Rightarrow> False)"

definition all_string_rows ::
  "unicode_db \<Rightarrow> excel_handler \<Rightarrow> ustr \<Rightarrow> sheet_config \<Rightarrow> match_result list" where
  "all_string_rows db eh name cfg =
     (case map_of (cache eh) name of
        None \<Rightarrow> []
      | Some df \<Rightarrow>
          (case question_column cfg of
             None \<Rightarrow> []
           | Some qc \<Rightarrow>
               if qc = [] \<or> qc \<notin> set (df_columns df) \<or> qc \<notin> set (df_str_columns df) then []
               else map (\<lambda>(idx, row). exact_result db df name cfg qc idx row)
                      (filter (\<lambda>(idx, row). is_string (row qc)) (enumerate 0 (df_rows df)))))"

section \<open>The model solver (api_handler.py)\<close>

subsection \<open>Parsing the model's answer\<close>

record parsed_answer =
  question_type :: ustr
  reasoning :: ustr
  answer :: ustr
  correct_option :: ustr
  confidence :: rat

definition init_answer :: parsed_answer where
  "init_answer = \<lparr>question_type = [], reasoning = [], answer = [], correct_option = [], confidence = 9 / 10\<rparr>"

text \<open>
  The ten label prefixes, two per branch of the \<open>if\<close>/\<open>elif\<close> chain, as code points.
  Each ends in the ASCII colon 58 and has no colon before it.
\<close>

definition label_reasoning :: "ustr list" where
  "label_reasoning = [[24605, 32771, 36942, 31243, 58], [24605, 32771, 36807, 31243, 58]]"

definition label_answer :: "ustr list" where
  "label_answer = [[31572, 12360, 58], [31572, 26696, 58]]"

definition label_question_type :: "ustr list" where
  "label_question_type = [[21839, 38988, 12398, 31278, 39006, 58], [38382, 39064, 31867, 22411, 58]]"

definition label_legacy_reasoning :: "ustr list" where
  "label_legacy_reasoning =
     [[35299, 27861, 12539, 32771, 12360, 26041, 58], [35299, 31572, 36807, 31243, 58]]"

definition label_correct_option :: "ustr list" where
  "label_correct_option = [[27491, 35299, 58], [27491, 30830, 31572, 26696, 58]]"

definition has_label :: "ustr list \<Rightarrow> ustr \<Rightarrow> bool" where
  "has_label ls line = list_ex (startswith line) ls"

text \<open>
  \<open>line.split(':', 1)[1].strip()\<close>: what follows the first colon. The expression is
  only evaluated on a line that starts with a label, so the colon is there.
\<close>

definition after_colon :: "ustr \<Rightarrow> ustr" where
  "after_colon line = strip (drop 1 (dropWhile (\<lambda>c. c \<noteq> 58) line))"

text \<open>The body of the loop over the lines of the response.\<close>

definition parse_line :: "parsed_answer \<Rightarrow> ustr \<Rightarrow> parsed_answer" where
  "parse_line result raw =
     (let line = strip raw in
      if has_label label_reasoning line then result\<lparr>reasoning := after_colon line\<rparr>
      else if has_label label_answer line then result\<lparr>answer := after_colon line\<rparr>
      else if has_label label_question_type line then result\<lparr>question_type := after_colon line\<rparr>
      else if has_label label_legacy_reasoning line then result\<lparr>reasoning := after_colon line\<rparr>
      else if has_label label_correct_option line then result\<lparr>correct_option := after_colon line\<rparr>
      else result)"

definition is_option_letter :: "nat \<Rightarrow> bool" where
  "is_option_letter c \<longleftrightarrow> (65 \<le> c \<and> c \<le> 68) \<or> (97 \<le> c \<and> c \<le> 100)"

text \<open>\<open>.upper()\<close> of a letter matched by \<open>[A-Da-d]\<close>.\<close>

definition upper_option :: "nat \<Rightarrow> nat" where
  "upper_option c = (if 97 \<le> c then c - 32 else c)"

text \<open>
  \<open>\b\<close> holds between two neighbours when exactly one of them is a word character;
  the start and the end of the string count as no word character.
\<close>

fun word_boundary :: "unicode_db \<Rightarrow> nat option \<Rightarrow> nat option \<Rightarrow> bool" where
  "word_boundary db a b =
     ((case a of None \<Rightarrow> False | Some c \<Rightarrow> is_word db c) \<noteq>
      (case b of None \<Rightarrow> False | Some c \<Rightarrow> is_word db c))"

text \<open>
  \<open>re.search(r'\b([A-Da-d])\b', s)\<close>: the leftmost option letter with a word boundary
  on both sides. \<open>prev\<close> is the code point before the rest of the string.
\<close>

fun search_bare_option :: "unicode_db \<Rightarrow> nat option \<Rightarrow> ustr \<Rightarrow> nat option" where
  "search_bare_option db prev [] = None"
| "search_bare_option db prev (c # cs) =
     (if is_option_letter c \<and> word_boundary db prev (Some c) \<and>
         word_boundary db (Some c) (case cs of [] \<Rightarrow> None | n # _ \<Rightarrow> Some n)
      then Some c
      else search_bare_option db (Some c) cs)"

text \<open>
  The second pattern is a character of the class (code points 31572, 27491, 35299), then
  \<open>.*\<close>, then a fullwidth or ASCII colon, whitespace and an option letter.
  \<open>colon_option\<close> matches the part from the colon on at the start of a string;
  \<open>greedy_any\<close> matches \<open>.*\<close> followed by that part, the longest \<open>.*\<close> first, where
  \<open>.\<close> is any code point but the newline; \<open>search_labelled_option\<close> tries the start
  positions from the left.
\<close>

fun colon_option :: "ustr \<Rightarrow> nat option" where
  "colon_option [] = None"
| "colon_option (c # cs) =
     (if c = 65306 \<or> c = 58
      then (case dropWhile py_isspace cs of
              [] \<Rightarrow> None
            | l # _ \<Rightarrow> if is_option_letter l then Some l else None)
      else None)"

fun greedy_any :: "ustr \<Rightarrow> nat option" where
  "greedy_any [] = colon_option []"
| "greedy_any (c # cs) =
     (if c = 10 then colon_option (c # cs)
      else (case greedy_any cs of Some l \<Rightarrow> Some l | None \<Rightarrow> colon_option (c # cs)))"

fun search_labelled_option :: "ustr \<Rightarrow> nat option" where
  "search_labelled_option [] = None"
| "search_labelled_option (c # cs) =
     (if c = 31572 \<or> c = 27491 \<or> c = 35299
      then (case greedy_any cs of Some l \<Rightarrow> Some l | None \<Rightarrow> search_labelled_option cs)
      else search_labelled_option cs)"

definition extract_option :: "unicode_db \<Rightarrow> ustr \<Rightarrow> ustr" where
  "extract_option db ans =
     (case search_bare_option db None ans of
        Some c \<Rightarrow> [upper_option c]
      | None \<Rightarrow> (case search_labelled_option ans of Some c \<Rightarrow> [upper_option c] | None \<Rightarrow> []))"

text \<open>The list comprehension \<open>[line.strip() for line in lines if line.strip()]\<close>.\<close>

definition non_empty_lines :: "ustr list \<Rightarrow> ustr list" where
  "non_empty_lines lines = filter (\<lambda>l. l \<noteq> []) (map strip lines)"

definition fallback_answer :: "ustr \<Rightarrow> ustr" where
  "fallback_answer response_text =
     (let nel = non_empty_lines (split_on 10 (strip response_text)) in
      if nel \<noteq> [] then last nel else strip response_text)"

text \<open>
  \<open>_parse_answer\<close> on a string. Nothing in its \<open>try\<close> block raises on a string, so the
  \<open>except\<close> branch is not taken.
\<close>

definition parse_answer :: "unicode_db \<Rightarrow> ustr \<Rightarrow> parsed_answer" where
  "parse_answer db response_text =
     (let lines = split_on 10 (strip response_text);
          result = foldl parse_line init_answer lines;
          result1 = (if answer result = [] \<and> correct_option result = []
                     then result\<lparr>answer := fallback_answer response_text\<rparr> else result);
          result2 = (if correct_option result1 = []
                     then result1\<lparr>correct_option := extract_option db (answer result1)\<rparr>
                     else result1)
      in result2)"

subsection \<open>Which lines write which field\<close>

text \<open>
  The lines on which the loop assigns a field: the reasoning field has two branches of
  the \<open>if\<close>/\<open>elif\<close> chain, every other field one. \<open>last_value\<close> is the value
  taken from the last such line, or the empty initial value when there is none.
\<close>

definition writes_reasoning :: "ustr \<Rightarrow> bool" where
  "writes_reasoning raw \<longleftrightarrow>
     has_label label_reasoning (strip raw) \<or> has_label label_legacy_reasoning (strip raw)"

definition writes_answer :: "ustr \<Rightarrow> bool" where
  "writes_answer raw \<longleftrightarrow> has_label label_answer (strip raw)"

definition writes_question_type :: "ustr \<Rightarrow> bool" where
  "writes_question_type raw \<longleftrightarrow> has_label label_question_type (strip raw)"

definition writes_correct_option :: "ustr \<Rightarrow> bool" where
  "writes_correct_option raw \<longleftrightarrow> has_label label_correct_option (strip raw)"

definition last_value :: "(ustr \<Rightarrow> bool) \<Rightarrow> ustr list \<Rightarrow> ustr" where
  "last_value w lines =
     (if filter w lines = [] then [] else after_colon (strip (last (filter w lines))))"

subsection \<open>Calling the model\<close>

datatype json = JNull | JBool bool | JNum rat | JStr ustr | JArr "json list" | JObj "(ustr \<times> json) list"

datatype py_exception =
  KeyError | IndexError | TypeError | AttributeError | ValueError | Timeout | RequestException | OtherException







text \<open>
  What the HTTP session does with the request is outside the repository: it times out,
  raises another request exception, raises something else, or returns a response with a
  status code, whose body parses as JSON or does not.
\<close>

datatype http_outcome = RaisesTimeout | RaisesRequestException | RaisesOther | Responds nat "json option"

text \<open>
  The environment of the solver: \<open>str.format\<close> with the one keyword \<open>question\<close>, and
  the outcome of posting a prompt.
\<close>

record api_env =
  py_format :: "ustr \<Rightarrow> ustr \<Rightarrow> py_exception + ustr"
  http_post :: "ustr \<Rightarrow> http_outcome"

















section \<open>The trigger handler (main.py)\<close>

text \<open>
  The two messages of the handler: the failure prefix followed by an error text, and the
  exception prefix followed by the text of an exception.
\<close>

datatype error_message = FailedWith ustr | FailedException py_exception

datatype gui_event = ShowStatus ustr | ShowError error_message

record app_state =
  is_processing :: bool
  total_requests :: nat
  successful_answers :: nat
  failed_answers :: nat
  gui_log :: "gui_event list"

text \<open>The dictionary returned by \<open>_process_question\<close>.\<close>

record pq_result =
  pq_success :: bool
  pq_error :: "ustr option"

text \<open>
  The pipeline step returns a dictionary or nothing, or raises, and leaves a state behind.
  The windowing toolkit is outside the repository: the window may be absent, scheduling an
  event on it may raise, and formatting an answer may raise.
\<close>

record app_env =
  process_question :: "app_state \<Rightarrow> (py_exception + pq_result option) \<times> app_state"
  has_root :: bool
  after_raises :: "gui_event \<Rightarrow> py_exception option"
  format_raises :: "gui_event \<Rightarrow> py_exception option"

text \<open>\<open>FloatingWindow.show_status\<close> has no handler of its own.\<close>

definition show_status :: "app_env \<Rightarrow> ustr \<Rightarrow> app_state \<Rightarrow> py_exception + app_state" where
  "show_status env msg s =
     (if has_root env
      then (case after_raises env (ShowStatus msg) of
              Some e \<Rightarrow> Inl e
            | None \<Rightarrow> Inr (s\<lparr>gui_log := gui_log s @ [ShowStatus msg]\<rparr>))
      else Inr s)"

text \<open>\<open>FloatingWindow.show_answer\<close> for the data of \<open>show_error\<close>: all is under \<open>try\<close>.\<close>

definition show_error :: "app_env \<Rightarrow> error_message \<Rightarrow> app_state \<Rightarrow> py_exception + app_state" where
  "show_error env msg s =
     (if \<not> has_root env then Inr s
      else (case format_raises env (ShowError msg) of
              Some e \<Rightarrow> Inr s
            | None \<Rightarrow> (case after_raises env (ShowError msg) of
                         Some e \<Rightarrow> Inr s
                       | None \<Rightarrow> Inr (s\<lparr>gui_log := gui_log s @ [ShowError msg]\<rparr>))))"

definition busy_message :: ustr where
  "busy_message = [22788, 29702, 20013, 65292, 35831, 31245, 20505, 46, 46, 46]"

text \<open>The \<open>try\<close> block of \<open>_on_hotkey_triggered\<close>.\<close>

definition handler_try :: "app_env \<Rightarrow> app_state \<Rightarrow> (py_exception \<times> app_state) + app_state" where
  "handler_try env s =
     (case process_question env s of
        (Inl e, s1) \<Rightarrow> Inl (e, s1)
      | (Inr result, s1) \<Rightarrow>
          (case result of
             Some r \<Rightarrow>
               if pq_success r then Inr (s1\<lparr>successful_answers := successful_answers s1 + 1\<rparr>)
               else (let s2 = s1\<lparr>failed_answers := failed_answers s1 + 1\<rparr>;
                         error_msg = (case pq_error r of None \<Rightarrow> [26410, 30693, 38169, 35823] | Some m \<Rightarrow> m)
                     in case show_error env (FailedWith error_msg) s2 of
                          Inl e \<Rightarrow> Inl (e, s2) | Inr s3 \<Rightarrow> Inr s3)
           | None \<Rightarrow>
               (let s2 = s1\<lparr>failed_answers := failed_answers s1 + 1\<rparr>
                in case show_error env (FailedWith [22788, 29702, 22833, 36133]) s2 of
                     Inl e \<Rightarrow> Inl (e, s2) | Inr s3 \<Rightarrow> Inr s3)))"

text \<open>
  \<open>_on_hotkey_triggered\<close>: the busy check, then \<open>try\<close>, \<open>except Exception\<close> and
  \<open>finally\<close>. An exception raised in the \<open>except\<close> branch would leave the handler after
  the \<open>finally\<close> branch has run.
\<close>

definition on_hotkey_triggered :: "app_env \<Rightarrow> app_state \<Rightarrow> py_exception + app_state" where
  "on_hotkey_triggered env s =
     (if is_processing s then show_status env busy_message s
      else (let s0 = s\<lparr>is_processing := True, total_requests := total_requests s + 1\<rparr> in
            case handler_try env s0 of
              Inr s1 \<Rightarrow> Inr (s1\<lparr>is_processing := False\<rparr>)
            | Inl (e, s1) \<Rightarrow>
                (let s2 = s1\<lparr>failed_answers := failed_answers s1 + 1\<rparr> in
                 case show_error env (FailedException e) s2 of
                   Inl e' \<Rightarrow> Inl e'
                 | Inr s3 \<Rightarrow> Inr (s3\<lparr>is_processing := False\<rparr>))))"

section \<open>Concrete inputs\<close>

text \<open>
  An instance of the character tables for concrete inputs. It is exact on ASCII and on the
  ideographs U+4E00..U+9FAF, which are alphanumeric and have no case; no other code
  point occurs at those inputs.
\<close>

definition ascii_lower_char :: "nat \<Rightarrow> nat" where
  "ascii_lower_char c = (if 65 \<le> c \<and> c \<le> 90 then c + 32 else c)"

definition ascii_upper_char :: "nat \<Rightarrow> nat" where
  "ascii_upper_char c = (if 97 \<le> c \<and> c \<le> 122 then c - 32 else c)"

definition basic_db :: unicode_db where
  "basic_db = \<lparr>u_isalnum = (\<lambda>c. 19968 \<le> c \<and> c \<le> 40879),
               u_lower = map ascii_lower_char, u_upper = map ascii_upper_char,
               u_ci_eq = (\<lambda>a b. ascii_lower_char a = ascii_lower_char b)\<rparr>"

text \<open>
  A stand-in for the similarity library at concrete inputs: identical strings score 100,
  different ones 0.
\<close>

definition unit_fuzz :: fuzz where
  "unit_fuzz = \<lparr>fuzz_ratio = (\<lambda>q t. if q = t then 100 else 0),
                fuzz_partial_ratio = (\<lambda>q t. if q = t then 100 else 0),
                fuzz_token_sort_ratio = (\<lambda>q t. if q = t then 100 else 0),
                fuzz_token_set_ratio = (\<lambda>q t. if q = t then 100 else 0)\<rparr>"

text \<open>
  A second stand-in for the library: identical strings score 100, different ones 50.
\<close>

definition half_fuzz :: fuzz where
  "half_fuzz = \<lparr>fuzz_ratio = (\<lambda>q t. if q = t then 100 else 50),
                fuzz_partial_ratio = (\<lambda>q t. if q = t then 100 else 50),
                fuzz_token_sort_ratio = (\<lambda>q t. if q = t then 100 else 50),
                fuzz_token_set_ratio = (\<lambda>q t. if q = t then 100 else 50)\<rparr>"

text \<open>A row of a concrete sheet, from the cells of its columns.\<close>

definition row_of :: "(ustr \<times> cell) list \<Rightarrow> ustr \<Rightarrow> cell" where
  "row_of kvs c = (case map_of kvs c of Some v \<Rightarrow> v | None \<Rightarrow> NaN)"

text \<open>
  The first sheet written by \<open>create_sample_excel\<close>: the question in column A, four
  options in B to E, the letter of the correct option in F.
\<close>

definition sample_df :: dataframe where
  "sample_df =
     \<lparr>df_columns = [ascii ''A'', ascii ''B'', ascii ''C'', ascii ''D'', ascii ''E'', ascii ''F''],
      df_str_columns = [ascii ''A'', ascii ''B'', ascii ''C'', ascii ''D'', ascii ''E'', ascii ''F''],
      df_rows =
        [row_of [(ascii ''A'', Str [49, 43, 49, 31561, 20110, 22810, 23569, 65311]),
                 (ascii ''B'', Str (ascii ''1'')), (ascii ''C'', Str (ascii ''2'')),
                 (ascii ''D'', Str (ascii ''3'')), (ascii ''E'', Str (ascii ''4'')),
                 (ascii ''F'', Str (ascii ''B''))],
         row_of [(ascii ''A'', Str [50, 42, 51, 31561, 20110, 22810, 23569, 65311]),
                 (ascii ''B'', Str (ascii ''5'')), (ascii ''C'', Str (ascii ''6'')),
                 (ascii ''D'', Str (ascii ''7'')), (ascii ''E'', Str (ascii ''8'')),
                 (ascii ''F'', Str (ascii ''B''))],
         row_of [(ascii ''A'', Str [49, 48, 38500, 20197, 50, 31561, 20110, 22810, 23569, 65311]),
                 (ascii ''B'', Str (ascii ''4'')), (ascii ''C'', Str (ascii ''5'')),
                 (ascii ''D'', Str (ascii ''6'')), (ascii ''E'', Str (ascii ''7'')),
                 (ascii ''F'', Str (ascii ''C''))]]\<rparr>"

definition sample_config :: sheet_config where
  "sample_config =
     \<lparr>question_column = Some (ascii ''A''),
      answer_columns = [ascii ''B'', ascii ''C'', ascii ''D'', ascii ''E''],
      correct_answer_column = Some (ascii ''F'')\<rparr>"

definition sample_bank :: excel_handler where
  "sample_bank =
     \<lparr>sheets_config = [([25968, 23398, 38382, 39064], sample_config)],
      fuzzy_cfg = \<lparr>threshold = None, max_results = None\<rparr>,
      cache = [([25968, 23398, 38382, 39064], sample_df)]\<rparr>"

text \<open>
  A bank with one row whose options are B:1, C:2, D:3, E:4, F:4 and whose correct answer
  is B: six answer columns, the first one without a value in this row.
\<close>

definition scenario_query :: ustr where
  "scenario_query = [49, 43, 49, 31561, 20110, 22810, 23569, 65311]"

definition scenario_row :: "ustr \<Rightarrow> cell" where
  "scenario_row =
     row_of [(ascii ''Q'', Str scenario_query), (ascii ''O1'', NaN),
             (ascii ''O2'', Str (ascii ''1'')), (ascii ''O3'', Str (ascii ''2'')),
             (ascii ''O4'', Str (ascii ''3'')), (ascii ''O5'', Str (ascii ''4'')),
             (ascii ''O6'', Str (ascii ''4'')), (ascii ''R'', Str (ascii ''B''))]"

definition scenario_df :: dataframe where
  "scenario_df =
     \<lparr>df_columns = [ascii ''Q'', ascii ''O1'', ascii ''O2'', ascii ''O3'', ascii ''O4'',
                    ascii ''O5'', ascii ''O6'', ascii ''R''],
      df_str_columns = [ascii ''Q'', ascii ''O2'', ascii ''O3'', ascii ''O4'', ascii ''O5'',
                        ascii ''O6'', ascii ''R''],
      df_rows = [scenario_row]\<rparr>"

definition scenario_config :: sheet_config where
  "scenario_config =
     \<lparr>question_column = Some (ascii ''Q''),
      answer_columns = [ascii ''O1'', ascii ''O2'', ascii ''O3'', ascii ''O4'', ascii ''O5'',
                        ascii ''O6''],
      correct_answer_column = Some (ascii ''R'')\<rparr>"

definition scenario_bank :: excel_handler where
  "scenario_bank =
     \<lparr>sheets_config = [(ascii ''S'', scenario_config)],
      fuzzy_cfg = \<lparr>threshold = None, max_results = None\<rparr>,
      cache = [(ascii ''S'', scenario_df)]\<rparr>"

text \<open>A row of the sample sheet with the letter of the correct option in lower case.\<close>

definition lower_row :: "ustr \<Rightarrow> cell" where
  "lower_row =
     row_of [(ascii ''A'', Str scenario_query), (ascii ''B'', Str (ascii ''1'')),
             (ascii ''C'', Str (ascii ''2'')), (ascii ''D'', Str (ascii ''3'')),
             (ascii ''E'', Str (ascii ''4'')), (ascii ''F'', Str (ascii ''b''))]"

text \<open>A bank of one row without punctuation in its question.\<close>

definition twice_df :: dataframe where
  "twice_df =
     \<lparr>df_columns = [ascii ''Q''], df_str_columns = [ascii ''Q''],
      df_rows = [row_of [(ascii ''Q'', Str (ascii ''What is 2''))]]\<rparr>"

definition twice_config :: sheet_config where
  "twice_config = \<lparr>question_column = Some (ascii ''Q''), answer_columns = [], correct_answer_column = None\<rparr>"

definition twice_bank :: excel_handler where
  "twice_bank =
     \<lparr>sheets_config = [(ascii ''S'', twice_config)],
      fuzzy_cfg = \<lparr>threshold = None, max_results = None\<rparr>,
      cache = [(ascii ''S'', twice_df)]\<rparr>"

text \<open>
  A bank of three rows with a threshold of one half and at most four results, and the bank
  of one row with a threshold of 2, above every score.
\<close>

definition ranked_df :: dataframe where
  "ranked_df =
     \<lparr>df_columns = [ascii ''Q''], df_str_columns = [ascii ''Q''],
      df_rows = [row_of [(ascii ''Q'', Str (ascii ''ab''))],
                 row_of [(ascii ''Q'', Str (ascii ''cd''))],
                 row_of [(ascii ''Q'', Str (ascii ''abc''))]]\<rparr>"

definition ranked_bank :: excel_handler where
  "ranked_bank =
     \<lparr>sheets_config = [(ascii ''S'', twice_config)],
      fuzzy_cfg = \<lparr>threshold = Some (1 / 2), max_results = Some 4\<rparr>,
      cache = [(ascii ''S'', ranked_df)]\<rparr>"

definition strict_bank :: excel_handler where
  "strict_bank =
     \<lparr>sheets_config = [(ascii ''S'', twice_config)],
      fuzzy_cfg = \<lparr>threshold = Some 2, max_results = None\<rparr>,
      cache = [(ascii ''S'', twice_df)]\<rparr>"

text \<open>
  Responses of the model: two lines with the answer label and the values 1 and 2; one
  line with the answer label and the value 42; a line of reasoning and then a bare C.
\<close>

definition two_answers :: ustr where
  "two_answers = [31572, 12360, 58, 32, 49, 10, 31572, 12360, 58, 32, 50]"

definition answer_42 :: ustr where
  "answer_42 = [31572, 12360, 58, 32, 52, 50]"

definition bare_c :: ustr where
  "bare_c = [24605, 32771, 36942, 31243, 58, 32, 120, 10, 10, 67, 10]"

text \<open>
  Three answers for the option patterns. In the first an option letter follows a fullwidth
  colon and is followed by an ideograph, so that only the second pattern finds it; in the
  second a bare A comes before a labelled B; in the third two labelled letters are each
  followed by a letter, so that the first pattern finds nothing and the second pattern has
  two colons to choose from.
\<close>

definition only_labelled :: ustr where
  "only_labelled = [31572, 65306, 66, 26159]"

definition bare_before_labelled :: ustr where
  "bare_before_labelled = [65, 32, 27491, 35299, 58, 32, 66]"

definition two_labelled :: ustr where
  "two_labelled = [31572, 58, 65, 120, 27491, 58, 98, 120]"

text \<open>
  Two environments of the solver. In both the template formats; in the first the
  endpoint answers 200 with a completion whose content is the answer line with 42, in the
  second it answers 500 with a body that is no JSON.
\<close>

definition ok_response :: json where
  "ok_response =
     JObj [(ascii ''choices'',
            JArr [JObj [(ascii ''message'', JObj [(ascii ''content'', JStr answer_42)])]])]"

definition ok_env :: api_env where
  "ok_env = \<lparr>py_format = (\<lambda>template question. Inr template),
             http_post = (\<lambda>prompt. Responds 200 (Some ok_response))\<rparr>"


text \<open>
  An environment of the trigger handler whose pipeline step raises, and two states of the
  application: idle and busy.
\<close>

definition crashing_env :: app_env where
  "crashing_env =
     \<lparr>process_question = (\<lambda>s. (Inl OtherException, s)), has_root = True,
      after_raises = (\<lambda>e. None), format_raises = (\<lambda>e. None)\<rparr>"

definition idle_state :: app_state where
  "idle_state =
     \<lparr>is_processing = False, total_requests = 0, successful_answers = 0, failed_answers = 0,
      gui_log = []\<rparr>"

definition busy_state :: app_state where
  "busy_state =
     \<lparr>is_processing = True, total_requests = 1, successful_answers = 0, failed_answers = 0,
      gui_log = []\<rparr>"

section \<open>Properties of the question bank\<close>

lemma calculate_match_score_bounds:
  assumes "fuzz_in_range fz query target"
  shows "0 \<le> calculate_match_score fz query target \<and> calculate_match_score fz query target \<le> 1 \<and>
         (\<forall>s \<in> set (sub_scores fz query target). 0 \<le> s \<and> s \<le> 1) \<and>
         (query \<noteq> [] \<and> target \<noteq> [] \<longrightarrow>
            calculate_match_score fz query target =
              2 / 10 * (sub_scores fz query target ! 0) + 3 / 10 * (sub_scores fz query target ! 1) +
              25 / 100 * (sub_scores fz query target ! 2) + 25 / 100 * (sub_scores fz query target ! 3))"
proof -
  define r where "r = (of_int (fuzz_ratio fz query target) :: rat)"
  define p where "p = (of_int (fuzz_partial_ratio fz query target) :: rat)"
  define ts where "ts = (of_int (fuzz_token_sort_ratio fz query target) :: rat)"
  define tt where "tt = (of_int (fuzz_token_set_ratio fz query target) :: rat)"
  define S where "S = 2 / 10 * (r / 100) + 3 / 10 * (p / 100) + 25 / 100 * (ts / 100) + 25 / 100 * (tt / 100)"
  from assms have rng: "0 \<le> r" "r \<le> 100" "0 \<le> p" "p \<le> 100" "0 \<le> ts" "ts \<le> 100" "0 \<le> tt" "tt \<le> 100"
    unfolding fuzz_in_range_def percent_def r_def p_def ts_def tt_def
    by simp_all
  have sum: "sum_list (map (\<lambda>(w, s). w * s) (zip weights (sub_scores fz query target))) = S"
    by (simp add: weights_def sub_scores_def r_def p_def ts_def tt_def S_def)
  have lo: "0 \<le> S" and hi: "S \<le> 1"
    using rng by (simp_all add: S_def)
  have subs: "\<forall>s \<in> set (sub_scores fz query target). 0 \<le> s \<and> s \<le> 1"
    using rng by (simp add: sub_scores_def r_def p_def ts_def tt_def)
  have val: "calculate_match_score fz query target = (if query = [] \<or> target = [] then 0 else S)"
    unfolding calculate_match_score_def sum by (rule refl)
  have c1: "0 \<le> calculate_match_score fz query target"
    using lo by (simp add: val)
  have c2: "calculate_match_score fz query target \<le> 1"
    using hi by (simp add: val)
  have c4: "query \<noteq> [] \<and> target \<noteq> [] \<longrightarrow>
            calculate_match_score fz query target =
              2 / 10 * (sub_scores fz query target ! 0) + 3 / 10 * (sub_scores fz query target ! 1) +
              25 / 100 * (sub_scores fz query target ! 2) + 25 / 100 * (sub_scores fz query target ! 3)"
    by (simp add: val S_def r_def p_def ts_def tt_def sub_scores_def)
  from c1 c2 subs c4 show ?thesis by blast
qed

lemma spec_fuzz_in_range: "fuzz_in_range (spec_fuzz raw) query target"
  by (simp add: fuzz_in_range_def percent_def spec_fuzz_def cut_percent_def)

lemma spec_fuzz_fixed:
  assumes "\<forall>q t. fuzz_in_range fz q t" and "\<forall>q. q \<noteq> [] \<longrightarrow> fuzz_ratio fz q q = 100"
  shows "spec_fuzz fz = fz"
proof -
  have c: "\<And>n. percent n \<Longrightarrow> cut_percent n = n"
    by (simp add: percent_def cut_percent_def)
  from assms(1) have p: "\<And>q t. percent (fuzz_ratio fz q t)" "\<And>q t. percent (fuzz_partial_ratio fz q t)"
    "\<And>q t. percent (fuzz_token_sort_ratio fz q t)" "\<And>q t. percent (fuzz_token_set_ratio fz q t)"
    by (simp_all add: fuzz_in_range_def)
  have r: "(\<lambda>q t. if q = t \<and> q \<noteq> [] then 100 else cut_percent (fuzz_ratio fz q t)) = fuzz_ratio fz"
    using assms(2) by (auto simp: fun_eq_iff c p)
  show ?thesis
    by (simp add: spec_fuzz_def r c p)
qed

text \<open>
  C2. With the similarity library as the specification describes it, the blended score of
  \<open>_calculate_match_score\<close> lies between 0 and 1 for every query and target; there are
  four sub-measures, each between 0 and 1; for two non-empty strings the score is their sum
  weighted 0.2, 0.3, 0.25, 0.25; and for an identical non-empty pair the character-ratio
  sub-measure, the first one, is 1.
\<close>

theorem calculate_match_score_unit_interval:
  "0 \<le> calculate_match_score (spec_fuzz raw) query target \<and>
   calculate_match_score (spec_fuzz raw) query target \<le> 1 \<and>
   length (sub_scores (spec_fuzz raw) query target) = 4 \<and>
   (\<forall>s \<in> set (sub_scores (spec_fuzz raw) query target). 0 \<le> s \<and> s \<le> 1) \<and>
   (query \<noteq> [] \<and> target \<noteq> [] \<longrightarrow>
      calculate_match_score (spec_fuzz raw) query target =
        2 / 10 * (sub_scores (spec_fuzz raw) query target ! 0) +
        3 / 10 * (sub_scores (spec_fuzz raw) query target ! 1) +
        25 / 100 * (sub_scores (spec_fuzz raw) query target ! 2) +
        25 / 100 * (sub_scores (spec_fuzz raw) query target ! 3)) \<and>
   (query \<noteq> [] \<longrightarrow> sub_scores (spec_fuzz raw) query query ! 0 = 1)"
proof -
  note b = calculate_match_score_bounds [OF spec_fuzz_in_range, of raw query target]
  have l: "length (sub_scores (spec_fuzz raw) query target) = 4"
    by (simp add: sub_scores_def)
  have i: "query \<noteq> [] \<longrightarrow> sub_scores (spec_fuzz raw) query query ! 0 = 1"
    by (simp add: sub_scores_def spec_fuzz_def)
  show ?thesis
    by (rule conjI [OF b [THEN conjunct1]], rule conjI [OF b [THEN conjunct2, THEN conjunct1]],
        rule conjI [OF l], rule conjI [OF b [THEN conjunct2, THEN conjunct2, THEN conjunct1]],
        rule conjI [OF b [THEN conjunct2, THEN conjunct2, THEN conjunct2]], rule i)
qed

theorem calculate_match_score_unit_interval_witness:
  "ascii ''ab'' \<noteq> [] \<and> ascii ''abc'' \<noteq> [] \<and>
   sub_scores (spec_fuzz unit_fuzz) (ascii ''ab'') (ascii ''ab'') ! 0 = 1 \<and>
   calculate_match_score (spec_fuzz unit_fuzz) (ascii ''ab'') (ascii ''abc'') =
     2 / 10 * (sub_scores (spec_fuzz unit_fuzz) (ascii ''ab'') (ascii ''abc'') ! 0) +
     3 / 10 * (sub_scores (spec_fuzz unit_fuzz) (ascii ''ab'') (ascii ''abc'') ! 1) +
     25 / 100 * (sub_scores (spec_fuzz unit_fuzz) (ascii ''ab'') (ascii ''abc'') ! 2) +
     25 / 100 * (sub_scores (spec_fuzz unit_fuzz) (ascii ''ab'') (ascii ''abc'') ! 3) \<and>
   calculate_match_score (spec_fuzz half_fuzz) (ascii ''ab'') (ascii ''abc'') = 1 / 2 \<and>
   calculate_match_score (spec_fuzz half_fuzz) (ascii ''ab'') (ascii ''ab'') = 1"
proof -
  have n: "ascii ''ab'' \<noteq> []" "ascii ''abc'' \<noteq> []"
    by (simp_all add: ascii_def)
  note a = calculate_match_score_unit_interval [of unit_fuzz "ascii ''ab''" "ascii ''abc''"]
  note a5 = a [THEN conjunct2, THEN conjunct2, THEN conjunct2, THEN conjunct2, THEN conjunct1,
               rule_format, OF conjI [OF n]]
  note b = calculate_match_score_unit_interval [of unit_fuzz "ascii ''ab''" "ascii ''ab''"]
  note b6 = b [THEN conjunct2, THEN conjunct2, THEN conjunct2, THEN conjunct2, THEN conjunct2,
               rule_format, OF n(1)]
  have h1: "calculate_match_score (spec_fuzz half_fuzz) (ascii ''ab'') (ascii ''abc'') = 1 / 2"
    by (simp add: calculate_match_score_def sub_scores_def weights_def spec_fuzz_def half_fuzz_def
          cut_percent_def ascii_def)
  have h2: "calculate_match_score (spec_fuzz half_fuzz) (ascii ''ab'') (ascii ''ab'') = 1"
    by (simp add: calculate_match_score_def sub_scores_def weights_def spec_fuzz_def half_fuzz_def
          cut_percent_def ascii_def)
  show ?thesis
    by (intro conjI n b6 a5 h1 h2)
qed

lemma filter_fuzzy_candidate:
  "filter (\<lambda>r. get_threshold eh \<le> match_score r) (fuzzy_candidate db fz df name cfg qc cleaned ir) =
   fuzzy_row db fz eh df name cfg qc cleaned ir"
  by (simp add: fuzzy_candidate_def fuzzy_row_def fuzzy_result_def Let_def)

lemma exact_search_score:
  "r \<in> set (exact_search_in_sheet db eh q name cfg) \<Longrightarrow> match_score r = 1 \<and> matched_method r = ''exact''"
  by (auto simp: exact_search_in_sheet_def exact_result_def split: option.splits if_splits)

lemma fuzzy_row_score:
  "r \<in> set (fuzzy_row db fz eh df name cfg qc cleaned ir) \<Longrightarrow> get_threshold eh \<le> match_score r"
  by (auto simp: fuzzy_row_def fuzzy_result_def Let_def split: if_splits)

lemma filter_exact_search:
  "get_threshold eh \<le> 1 \<Longrightarrow>
   filter (\<lambda>r. get_threshold eh \<le> match_score r) (exact_search_in_sheet db eh q name cfg) =
   exact_search_in_sheet db eh q name cfg"
  by (rule filter_True) (auto dest: exact_search_score)

lemma filter_sheet_matches:
  assumes "get_threshold eh \<le> 1"
  shows "filter (\<lambda>r. get_threshold eh \<le> match_score r) (sheet_matches db fz eh q name cfg) =
         search_in_sheet db fz eh q name cfg"
proof -
  have fz: "\<And>df qc cleaned rows.
      filter (\<lambda>r. get_threshold eh \<le> match_score r)
        (concat (map (fuzzy_candidate db fz df name cfg qc cleaned) rows)) =
      concat (map (fuzzy_row db fz eh df name cfg qc cleaned) rows)"
    by (simp add: filter_concat comp_def filter_fuzzy_candidate)
  show ?thesis
    by (simp add: sheet_matches_def search_in_sheet_def Let_def fz filter_exact_search [OF assms]
             split: option.splits)
qed

lemma all_results_eq:
  assumes "get_threshold eh \<le> 1"
  shows "all_results db fz eh q =
         filter (\<lambda>r. get_threshold eh \<le> match_score r)
           (concat (map (\<lambda>(name, cfg). sheet_matches db fz eh q name cfg) (sheets_config eh)))"
proof -
  have one: "\<And>name cfg.
      (if map_of (cache eh) name = None then [] else search_in_sheet db fz eh q name cfg) =
      filter (\<lambda>r. get_threshold eh \<le> match_score r) (sheet_matches db fz eh q name cfg)"
    by (simp add: filter_sheet_matches [OF assms] search_in_sheet_def)
  show ?thesis
    by (simp add: all_results_def filter_concat comp_def one case_prod_unfold)
qed

lemma sorted_desc_sort_key:
  "sorted_wrt (\<lambda>a b. match_score b \<le> match_score a) (take n (sort_key (\<lambda>r. - match_score r) xs))"
proof -
  have "sorted (map (\<lambda>r. - match_score r) (sort_key (\<lambda>r. - match_score r) xs))"
    by (rule sorted_sort_key)
  then have "sorted_wrt (\<lambda>a b. match_score b \<le> match_score a) (sort_key (\<lambda>r. - match_score r) xs)"
    by (simp add: sorted_map)
  then show ?thesis
    by (rule sorted_wrt_take)
qed

lemma filter_kept_fuzzy_candidate:
  "filter (kept_match eh) (fuzzy_candidate db fz df name cfg qc cleaned ir) =
   fuzzy_row db fz eh df name cfg qc cleaned ir"
  by (simp add: kept_match_def fuzzy_candidate_def fuzzy_row_def fuzzy_result_def Let_def)

lemma filter_kept_exact_search:
  "filter (kept_match eh) (exact_search_in_sheet db eh q name cfg) =
   exact_search_in_sheet db eh q name cfg"
  by (rule filter_True) (auto simp: kept_match_def dest: exact_search_score)

lemma filter_kept_sheet_matches:
  "filter (kept_match eh) (sheet_matches db fz eh q name cfg) = search_in_sheet db fz eh q name cfg"
proof -
  have fz: "\<And>df qc cleaned rows.
      filter (kept_match eh) (concat (map (fuzzy_candidate db fz df name cfg qc cleaned) rows)) =
      concat (map (fuzzy_row db fz eh df name cfg qc cleaned) rows)"
    by (simp add: filter_concat comp_def filter_kept_fuzzy_candidate)
  show ?thesis
    by (simp add: sheet_matches_def search_in_sheet_def Let_def fz filter_kept_exact_search
             split: option.splits)
qed

lemma all_results_kept:
  "all_results db fz eh q =
   filter (kept_match eh) (concat (map (\<lambda>(name, cfg). sheet_matches db fz eh q name cfg) (sheets_config eh)))"
proof -
  have one: "\<And>name cfg.
      (if map_of (cache eh) name = None then [] else search_in_sheet db fz eh q name cfg) =
      filter (kept_match eh) (sheet_matches db fz eh q name cfg)"
    by (simp add: filter_kept_sheet_matches search_in_sheet_def)
  show ?thesis
    by (simp add: all_results_def filter_concat comp_def one case_prod_unfold)
qed

lemma fuzzy_row_method:
  "r \<in> set (fuzzy_row db fz eh df name cfg qc cleaned ir) \<Longrightarrow> matched_method r = ''fuzzy''"
  by (auto simp: fuzzy_row_def fuzzy_result_def Let_def split: if_splits)

lemma search_in_sheet_kind:
  assumes "r \<in> set (search_in_sheet db fz eh q name cfg)"
  shows "matched_method r = ''exact'' \<and> match_score r = 1 \<or>
         matched_method r = ''fuzzy'' \<and> get_threshold eh \<le> match_score r"
proof -
  from assms obtain df qc where
    "r \<in> set (concat (map (fuzzy_row db fz eh df name cfg qc (clean_question_text db q))
                         (enumerate 0 (df_rows df)))) \<or>
     r \<in> set (exact_search_in_sheet db eh (clean_question_text db q) name cfg)"
    by (auto simp: search_in_sheet_def Let_def split: option.splits if_splits)
  then show ?thesis
  proof
    assume "r \<in> set (concat (map (fuzzy_row db fz eh df name cfg qc (clean_question_text db q))
                         (enumerate 0 (df_rows df))))"
    then obtain ir where "r \<in> set (fuzzy_row db fz eh df name cfg qc (clean_question_text db q) ir)"
      by auto
    then show ?thesis
      using fuzzy_row_score fuzzy_row_method by blast
  next
    assume "r \<in> set (exact_search_in_sheet db eh (clean_question_text db q) name cfg)"
    then show ?thesis
      using exact_search_score by blast
  qed
qed

lemma all_results_kind:
  assumes "r \<in> set (all_results db fz eh q)"
  shows "matched_method r = ''exact'' \<and> match_score r = 1 \<or>
         matched_method r = ''fuzzy'' \<and> get_threshold eh \<le> match_score r"
proof -
  from assms obtain name cfg where "r \<in> set (search_in_sheet db fz eh q name cfg)"
    by (auto simp: all_results_def split: if_splits)
  then show ?thesis
    by (rule search_in_sheet_kind)
qed

lemma set_py_slice_to: "set (py_slice_to n xs) \<subseteq> set xs"
  by (auto simp: py_slice_to_def dest: in_set_takeD)

lemma sorted_desc_py_slice_to:
  "sorted_wrt (\<lambda>a b. match_score b \<le> match_score a)
     (py_slice_to n (sort_key (\<lambda>r. - match_score r) xs))"
  by (simp add: py_slice_to_def sorted_desc_sort_key)

lemma search_question_spec:
  assumes "get_threshold eh \<le> 1" and "0 \<le> get_max_results eh"
  shows "search_question db fz eh q = spec_search_question db fz eh q"
proof -
  have sq: "search_question db fz eh q =
      take (nat (get_max_results eh)) (sort_key (\<lambda>r. - match_score r) (all_results db fz eh q))"
    using assms(2) by (simp add: search_question_def py_slice_to_def)
  show ?thesis
    unfolding sq spec_search_question_def all_results_eq [OF assms(1)] by (rule refl)
qed

text \<open>
  C1. \<open>search_question\<close> returns exactly the matches of all configured sheets that are
  exact matches, whatever the threshold, or fuzzy matches with a score at or above the
  threshold, sorted by descending score (stably) and cut by the slice to the maximum count.
  The result is sorted; every entry is an exact match of score 1 or a fuzzy match at or
  above the threshold; for a maximum count that is not negative the result is the first
  that many entries; and for a threshold of at most 1 the exact matches pass the threshold
  too, so that the result is the matches at or above the threshold, sorted and cut.
\<close>

theorem search_question_lookup_contract:
  "search_question db fz eh q = lookup_contract db fz eh q \<and>
   sorted_wrt (\<lambda>a b. match_score b \<le> match_score a) (search_question db fz eh q) \<and>
   (\<forall>r \<in> set (search_question db fz eh q).
      matched_method r = ''exact'' \<and> match_score r = 1 \<or>
      matched_method r = ''fuzzy'' \<and> get_threshold eh \<le> match_score r) \<and>
   (0 \<le> get_max_results eh \<longrightarrow>
      search_question db fz eh q =
        take (nat (get_max_results eh))
          (sort_key (\<lambda>r. - match_score r)
             (filter (kept_match eh) (concat (map (\<lambda>(name, cfg). sheet_matches db fz eh q name cfg) (sheets_config eh))))) \<and>
      int (length (search_question db fz eh q)) \<le> get_max_results eh) \<and>
   (get_threshold eh \<le> 1 \<and> 0 \<le> get_max_results eh \<longrightarrow>
      search_question db fz eh q = spec_search_question db fz eh q)"
proof -
  have c1: "search_question db fz eh q = lookup_contract db fz eh q"
    unfolding search_question_def lookup_contract_def all_results_kept [symmetric] by (rule refl)
  have c2: "sorted_wrt (\<lambda>a b. match_score b \<le> match_score a) (search_question db fz eh q)"
    unfolding search_question_def by (rule sorted_desc_py_slice_to)
  have c3: "\<forall>r \<in> set (search_question db fz eh q).
      matched_method r = ''exact'' \<and> match_score r = 1 \<or>
      matched_method r = ''fuzzy'' \<and> get_threshold eh \<le> match_score r"
  proof
    fix r assume "r \<in> set (search_question db fz eh q)"
    then have "r \<in> set (sort_key (\<lambda>r. - match_score r) (all_results db fz eh q))"
      unfolding search_question_def by (rule set_py_slice_to [THEN subsetD])
    then have "r \<in> set (all_results db fz eh q)" by simp
    then show "matched_method r = ''exact'' \<and> match_score r = 1 \<or>
      matched_method r = ''fuzzy'' \<and> get_threshold eh \<le> match_score r"
      by (rule all_results_kind)
  qed
  have c4: "0 \<le> get_max_results eh \<longrightarrow>
      search_question db fz eh q =
        take (nat (get_max_results eh))
          (sort_key (\<lambda>r. - match_score r)
             (filter (kept_match eh) (concat (map (\<lambda>(name, cfg). sheet_matches db fz eh q name cfg) (sheets_config eh))))) \<and>
      int (length (search_question db fz eh q)) \<le> get_max_results eh"
  proof
    assume h: "0 \<le> get_max_results eh"
    have sq: "search_question db fz eh q =
        take (nat (get_max_results eh)) (sort_key (\<lambda>r. - match_score r) (all_results db fz eh q))"
      using h by (simp add: search_question_def py_slice_to_def)
    have l: "int (length (search_question db fz eh q)) \<le> get_max_results eh"
      unfolding sq using h by simp
    have e: "search_question db fz eh q =
        take (nat (get_max_results eh))
          (sort_key (\<lambda>r. - match_score r)
             (filter (kept_match eh) (concat (map (\<lambda>(name, cfg). sheet_matches db fz eh q name cfg) (sheets_config eh)))))"
      using sq unfolding all_results_kept [symmetric] .
    from e l show "search_question db fz eh q =
        take (nat (get_max_results eh))
          (sort_key (\<lambda>r. - match_score r)
             (filter (kept_match eh) (concat (map (\<lambda>(name, cfg). sheet_matches db fz eh q name cfg) (sheets_config eh))))) \<and>
      int (length (search_question db fz eh q)) \<le> get_max_results eh"
      by (rule conjI)
  qed
  have c5: "get_threshold eh \<le> 1 \<and> 0 \<le> get_max_results eh \<longrightarrow>
      search_question db fz eh q = spec_search_question db fz eh q"
  proof
    assume "get_threshold eh \<le> 1 \<and> 0 \<le> get_max_results eh"
    then show "search_question db fz eh q = spec_search_question db fz eh q"
      by (elim conjE) (rule search_question_spec)
  qed
  show ?thesis
    by (rule conjI [OF c1], rule conjI [OF c2], rule conjI [OF c3], rule conjI [OF c4], rule c5)
qed

lemma ranked_clean:
  "clean_question_text basic_db (ascii ''ab'') = ascii ''ab''"
  "clean_question_text basic_db (ascii ''cd'') = ascii ''cd''"
  "clean_question_text basic_db (ascii ''abc'') = ascii ''abc''"
  by (simp_all add: clean_question_text_def basic_db_def strip_def lstrip_def rstrip_def py_isspace_def
        keep_char_def is_word_def ascii_alnum_def ascii_lower_char_def ascii_def)

lemma ranked_score:
  "calculate_match_score half_fuzz (ascii ''ab'') (ascii ''ab'') = 1"
  "calculate_match_score half_fuzz (ascii ''ab'') (ascii ''cd'') = 1 / 2"
  "calculate_match_score half_fuzz (ascii ''ab'') (ascii ''abc'') = 1 / 2"
  by (simp_all add: calculate_match_score_def sub_scores_def weights_def half_fuzz_def ascii_def)

lemma ranked_hit:
  "str_contains (u_ci_eq basic_db) (ascii ''ab'') (ascii ''ab'')"
  "\<not> str_contains (u_ci_eq basic_db) (ascii ''ab'') (ascii ''cd'')"
  "str_contains (u_ci_eq basic_db) (ascii ''ab'') (ascii ''abc'')"
  by (simp_all add: basic_db_def ascii_lower_char_def ascii_def)

lemma ranked_all_results:
  "map (\<lambda>r. (row_index r, match_score r, matched_method r))
     (all_results basic_db half_fuzz ranked_bank (ascii ''ab'')) =
   [(0, 1, ''fuzzy''), (1, 1 / 2, ''fuzzy''), (2, 1 / 2, ''fuzzy''), (0, 1, ''exact''), (2, 1, ''exact'')]"
proof -
  have c: "map_of (cache ranked_bank) (ascii ''S'') = Some ranked_df"
    by (simp add: ranked_bank_def)
  have s: "sheets_config ranked_bank = [(ascii ''S'', twice_config)]"
    by (simp add: ranked_bank_def)
  have q: "question_column twice_config = Some (ascii ''Q'')"
    by (simp add: twice_config_def)
  have qn: "ascii ''Q'' \<noteq> []" "ascii ''Q'' \<in> set (df_columns ranked_df)"
    "ascii ''Q'' \<in> set (df_str_columns ranked_df)"
    by (simp_all add: ascii_def ranked_df_def)
  have r: "df_rows ranked_df = [row_of [(ascii ''Q'', Str (ascii ''ab''))],
                 row_of [(ascii ''Q'', Str (ascii ''cd''))],
                 row_of [(ascii ''Q'', Str (ascii ''abc''))]]"
    by (simp add: ranked_df_def)
  have cell: "\<And>s. row_of [(ascii ''Q'', Str s)] (ascii ''Q'') = Str s"
    by (simp add: row_of_def)
  have th: "get_threshold ranked_bank = 1 / 2"
    by (simp add: get_threshold_def ranked_bank_def)
  have ne: "ascii ''ab'' \<noteq> []" "ascii ''ab'' \<noteq> [110, 97, 110]"
    "ascii ''cd'' \<noteq> []" "ascii ''cd'' \<noteq> [110, 97, 110]"
    "ascii ''abc'' \<noteq> []" "ascii ''abc'' \<noteq> [110, 97, 110]"
    by (simp_all add: ascii_def)
  show ?thesis
    by (simp add: all_results_def s c search_in_sheet_def q qn r ranked_clean fuzzy_row_def
          fuzzy_result_def exact_search_in_sheet_def exact_result_def cell ne ranked_score th
          ranked_hit Let_def)
qed


lemma map_insort_key: "map f (insort_key (\<lambda>x. k (f x)) x xs) = insort_key k (f x) (map f xs)"
  by (induction xs) simp_all

lemma map_sort_key: "map f (sort_key (\<lambda>x. k (f x)) xs) = sort_key k (map f xs)"
  by (induction xs) (simp_all add: map_insort_key)

lemma map_py_slice_to: "map f (py_slice_to n xs) = py_slice_to n (map f xs)"
  by (simp add: py_slice_to_def take_map)

lemma search_question_summary:
  "map (\<lambda>r. (row_index r, match_score r, matched_method r)) (search_question db fz eh q) =
   py_slice_to (get_max_results eh)
     (sort_key (\<lambda>t. - fst (snd t))
        (map (\<lambda>r. (row_index r, match_score r, matched_method r)) (all_results db fz eh q)))"
  using map_sort_key [of "\<lambda>r. (row_index r, match_score r, matched_method r)" "\<lambda>t. - fst (snd t)"
          "all_results db fz eh q"]
  by (simp add: search_question_def map_py_slice_to)

lemma ranked_search_question:
  "map (\<lambda>r. (row_index r, match_score r, matched_method r))
     (search_question basic_db half_fuzz ranked_bank (ascii ''ab'')) =
   [(0, 1, ''fuzzy''), (0, 1, ''exact''), (2, 1, ''exact''), (1, 1 / 2, ''fuzzy'')]"
  unfolding search_question_summary ranked_all_results
  by (simp add: get_max_results_def ranked_bank_def py_slice_to_def)

lemma strict_all_results:
  "map (\<lambda>r. (row_index r, match_score r, matched_method r))
     (all_results basic_db unit_fuzz strict_bank (ascii ''what'')) = [(0, 1, ''exact'')]"
proof -
  have c: "map_of (cache strict_bank) (ascii ''S'') = Some twice_df"
    by (simp add: strict_bank_def)
  have s: "sheets_config strict_bank = [(ascii ''S'', twice_config)]"
    by (simp add: strict_bank_def)
  have q: "question_column twice_config = Some (ascii ''Q'')"
    by (simp add: twice_config_def)
  have qn: "ascii ''Q'' \<noteq> []" "ascii ''Q'' \<in> set (df_columns twice_df)"
    "ascii ''Q'' \<in> set (df_str_columns twice_df)"
    by (simp_all add: ascii_def twice_df_def)
  have r: "df_rows twice_df = [row_of [(ascii ''Q'', Str (ascii ''What is 2''))]]"
    by (simp add: twice_df_def)
  have cell: "\<And>s. row_of [(ascii ''Q'', Str s)] (ascii ''Q'') = Str s"
    by (simp add: row_of_def)
  have th: "get_threshold strict_bank = 2"
    by (simp add: get_threshold_def strict_bank_def)
  have cl: "clean_question_text basic_db (ascii ''what'') = ascii ''what''"
    by (simp add: clean_question_text_def basic_db_def strip_def lstrip_def rstrip_def py_isspace_def
        keep_char_def is_word_def ascii_alnum_def ascii_lower_char_def ascii_def)
  have ne: "ascii ''What is 2'' \<noteq> []" "ascii ''What is 2'' \<noteq> [110, 97, 110]"
    by (simp_all add: ascii_def)
  have cs: "clean_question_text basic_db (ascii ''What is 2'') = ascii ''what is 2''"
    by (simp add: clean_question_text_def basic_db_def strip_def lstrip_def rstrip_def py_isspace_def
        keep_char_def is_word_def ascii_alnum_def ascii_lower_char_def ascii_def)
  have sc: "calculate_match_score unit_fuzz (ascii ''what'') (ascii ''what is 2'') = 0"
    by (simp add: calculate_match_score_def sub_scores_def weights_def unit_fuzz_def ascii_def)
  have hit: "str_contains (u_ci_eq basic_db) (ascii ''what'') (ascii ''What is 2'')"
    by (simp add: basic_db_def ascii_lower_char_def ascii_def)
  show ?thesis
    by (simp add: all_results_def s c search_in_sheet_def q qn r cl cs fuzzy_row_def
          fuzzy_result_def exact_search_in_sheet_def exact_result_def cell ne sc th hit Let_def)
qed

lemma strict_search_question:
  "map (\<lambda>r. (row_index r, match_score r, matched_method r))
     (search_question basic_db unit_fuzz strict_bank (ascii ''what'')) = [(0, 1, ''exact'')]"
  unfolding search_question_summary strict_all_results
  by (simp add: get_max_results_def strict_bank_def py_slice_to_def)

lemma strict_sheet_matches:
  "map (\<lambda>r. (row_index r, match_score r, matched_method r))
     (sheet_matches basic_db unit_fuzz strict_bank (ascii ''what'') (ascii ''S'') twice_config) =
   [(0, 0, ''fuzzy''), (0, 1, ''exact'')]"
proof -
  have c: "map_of (cache strict_bank) (ascii ''S'') = Some twice_df"
    by (simp add: strict_bank_def)
  have q: "question_column twice_config = Some (ascii ''Q'')"
    by (simp add: twice_config_def)
  have qn: "ascii ''Q'' \<noteq> []" "ascii ''Q'' \<in> set (df_columns twice_df)"
    "ascii ''Q'' \<in> set (df_str_columns twice_df)"
    by (simp_all add: ascii_def twice_df_def)
  have r: "df_rows twice_df = [row_of [(ascii ''Q'', Str (ascii ''What is 2''))]]"
    by (simp add: twice_df_def)
  have cell: "\<And>s. row_of [(ascii ''Q'', Str s)] (ascii ''Q'') = Str s"
    by (simp add: row_of_def)
  have cl: "clean_question_text basic_db (ascii ''what'') = ascii ''what''"
    by (simp add: clean_question_text_def basic_db_def strip_def lstrip_def rstrip_def py_isspace_def
        keep_char_def is_word_def ascii_alnum_def ascii_lower_char_def ascii_def)
  have ne: "ascii ''What is 2'' \<noteq> []" "ascii ''What is 2'' \<noteq> [110, 97, 110]"
    by (simp_all add: ascii_def)
  have cs: "clean_question_text basic_db (ascii ''What is 2'') = ascii ''what is 2''"
    by (simp add: clean_question_text_def basic_db_def strip_def lstrip_def rstrip_def py_isspace_def
        keep_char_def is_word_def ascii_alnum_def ascii_lower_char_def ascii_def)
  have sc: "calculate_match_score unit_fuzz (ascii ''what'') (ascii ''what is 2'') = 0"
    by (simp add: calculate_match_score_def sub_scores_def weights_def unit_fuzz_def ascii_def)
  have hit: "str_contains (u_ci_eq basic_db) (ascii ''what'') (ascii ''What is 2'')"
    by (simp add: basic_db_def ascii_lower_char_def ascii_def)
  show ?thesis
    by (simp add: sheet_matches_def c q qn r cl cs fuzzy_candidate_def
          fuzzy_result_def exact_search_in_sheet_def exact_result_def cell ne sc hit Let_def)
qed

lemma strict_spec:
  "spec_search_question basic_db unit_fuzz strict_bank (ascii ''what'') = []"
proof -
  have s: "sheets_config strict_bank = [(ascii ''S'', twice_config)]"
    by (simp add: strict_bank_def)
  have th: "get_threshold strict_bank = 2"
    by (simp add: get_threshold_def strict_bank_def)
  have "map (\<lambda>r. (row_index r, match_score r, matched_method r))
      (filter (\<lambda>r. 2 \<le> match_score r)
         (sheet_matches basic_db unit_fuzz strict_bank (ascii ''what'') (ascii ''S'') twice_config)) =
      filter (\<lambda>t. 2 \<le> fst (snd t))
        (map (\<lambda>r. (row_index r, match_score r, matched_method r))
           (sheet_matches basic_db unit_fuzz strict_bank (ascii ''what'') (ascii ''S'') twice_config))"
    by (simp add: filter_map comp_def)
  also have "\<dots> = []"
    unfolding strict_sheet_matches by simp
  finally have "filter (\<lambda>r. 2 \<le> match_score r)
         (sheet_matches basic_db unit_fuzz strict_bank (ascii ''what'') (ascii ''S'') twice_config) = []"
    by simp
  then show ?thesis
    by (simp add: spec_search_question_def s th)
qed

theorem search_question_lookup_contract_witness:
  "0 \<le> get_max_results ranked_bank \<and>
   map (\<lambda>r. (row_index r, match_score r, matched_method r))
     (all_results basic_db half_fuzz ranked_bank (ascii ''ab'')) =
   [(0, 1, ''fuzzy''), (1, 1 / 2, ''fuzzy''), (2, 1 / 2, ''fuzzy''), (0, 1, ''exact''), (2, 1, ''exact'')] \<and>
   map (\<lambda>r. (row_index r, match_score r, matched_method r))
     (search_question basic_db half_fuzz ranked_bank (ascii ''ab'')) =
   [(0, 1, ''fuzzy''), (0, 1, ''exact''), (2, 1, ''exact''), (1, 1 / 2, ''fuzzy'')] \<and>
   search_question basic_db half_fuzz ranked_bank (ascii ''ab'') =
     lookup_contract basic_db half_fuzz ranked_bank (ascii ''ab'') \<and>
   int (length (search_question basic_db half_fuzz ranked_bank (ascii ''ab''))) \<le>
     get_max_results ranked_bank \<and>
   get_max_results ranked_bank = 4 \<and> get_threshold ranked_bank = 1 / 2"
proof -
  have m: "get_max_results ranked_bank = 4" and t: "get_threshold ranked_bank = 1 / 2"
    by (simp_all add: get_max_results_def get_threshold_def ranked_bank_def)
  then have h: "0 \<le> get_max_results ranked_bank" by simp
  note c = search_question_lookup_contract [of basic_db half_fuzz ranked_bank "ascii ''ab''"]
  from c have c1: "search_question basic_db half_fuzz ranked_bank (ascii ''ab'') =
     lookup_contract basic_db half_fuzz ranked_bank (ascii ''ab'')"
    by (rule conjunct1)
  note d = c [THEN conjunct2, THEN conjunct2, THEN conjunct2, THEN conjunct1, rule_format, OF h]
  from d have c4: "int (length (search_question basic_db half_fuzz ranked_bank (ascii ''ab''))) \<le>
     get_max_results ranked_bank"
    by (rule conjunct2)
  show ?thesis
    by (intro conjI h ranked_all_results ranked_search_question c1 c4 m t)
qed

text \<open>
  C1 as stated fails: with a threshold of 2 the bank of one row returns the exact match of
  the query, whose score 1 is below the threshold, where the matches at or above the
  threshold are none.
\<close>

theorem search_question_threshold_counterexample:
  "get_threshold strict_bank = 2 \<and>
   map match_score (search_question basic_db unit_fuzz strict_bank (ascii ''what'')) = [1] \<and>
   map matched_method (search_question basic_db unit_fuzz strict_bank (ascii ''what'')) = [''exact''] \<and>
   spec_search_question basic_db unit_fuzz strict_bank (ascii ''what'') = []"
proof -
  have th: "get_threshold strict_bank = 2"
    by (simp add: get_threshold_def strict_bank_def)
  have "map (fst \<circ> snd) (map (\<lambda>r. (row_index r, match_score r, matched_method r))
     (search_question basic_db unit_fuzz strict_bank (ascii ''what''))) = [1]"
    unfolding strict_search_question by simp
  then have a: "map match_score (search_question basic_db unit_fuzz strict_bank (ascii ''what'')) = [1]"
    by (simp add: comp_def)
  have "map (snd \<circ> snd) (map (\<lambda>r. (row_index r, match_score r, matched_method r))
     (search_question basic_db unit_fuzz strict_bank (ascii ''what''))) = [''exact'']"
    unfolding strict_search_question by simp
  then have b: "map matched_method (search_question basic_db unit_fuzz strict_bank (ascii ''what'')) = [''exact'']"
    by (simp add: comp_def)
  from th a b strict_spec show ?thesis by blast
qed

lemma filter_const_index:
  "\<forall>r \<in> set ys. row_index r = n \<Longrightarrow>
   filter (\<lambda>r. row_index r = i) ys = (if i = n then ys else [])"
  by (induction ys) auto

lemma filter_index_enumerate:
  assumes "\<And>idx row. \<forall>r \<in> set (g (idx, row)). row_index r = idx"
  shows "filter (\<lambda>r. row_index r = i) (concat (map g (enumerate n rows))) =
         (if n \<le> i \<and> i < n + length rows then g (i, rows ! (i - n)) else [])"
proof (induction rows arbitrary: n)
  case Nil
  then show ?case by auto
next
  case (Cons x xs)
  have hd: "filter (\<lambda>r. row_index r = i) (g (n, x)) = (if i = n then g (n, x) else [])"
    by (rule filter_const_index) (rule assms)
  show ?case
  proof (cases "i = n")
    case True
    with hd Cons.IH [of "Suc n"] show ?thesis by simp
  next
    case False
    then have "n \<le> i \<and> i < n + length (x # xs) \<longleftrightarrow> Suc n \<le> i \<and> i < Suc n + length xs"
      by auto
    moreover from False have "Suc n \<le> i \<Longrightarrow> (x # xs) ! (i - n) = xs ! (i - Suc n)"
      by (simp add: Suc_diff_le)
    ultimately show ?thesis
      using False by (simp add: hd Cons.IH)
  qed
qed

lemma map_filter_as_concat:
  "map f (filter P xs) = concat (map (\<lambda>x. if P x then [f x] else []) xs)"
  by (induction xs) simp_all

lemma exact_search_valid:
  assumes "map_of (cache eh) name = Some df" and "question_column cfg = Some qc"
    and "qc \<in> set (df_columns df)" and "qc \<in> set (df_str_columns df)"
  shows "exact_search_in_sheet db eh pat name cfg =
         concat (map (\<lambda>ir. if cell_contains (u_ci_eq db) pat (snd ir qc)
                            then [exact_result db df name cfg qc (fst ir) (snd ir)] else [])
                   (enumerate 0 (df_rows df)))"
  using assms
  by (simp add: exact_search_in_sheet_def map_filter_as_concat case_prod_unfold)

text \<open>
  C3. In a loaded sheet whose question column is a string column, a row whose question
  text contains the cleaned query up to case is reported by the exact pass with score 1,
  method exact, its own index and its question text, whatever its blended score is. The
  result of \<open>_search_in_sheet\<close> is the fuzzy results followed by the exact
  results, nothing removed: the entries for that row are the exact one alone, or the
  fuzzy one and the exact one when the row also passes the fuzzy test.
\<close>

theorem exact_match_reported:
  assumes loaded: "map_of (cache eh) name = Some df"
    and qcol: "question_column cfg = Some qc" "qc \<noteq> []" "qc \<in> set (df_columns df)"
              "qc \<in> set (df_str_columns df)"
    and row: "i < length (df_rows df)" "(df_rows df ! i) qc = Str s"
    and hit: "str_contains (u_ci_eq db) (clean_question_text db q) s"
  shows "search_in_sheet db fz eh q name cfg =
           concat (map (fuzzy_row db fz eh df name cfg qc (clean_question_text db q))
                     (enumerate 0 (df_rows df))) @
           exact_search_in_sheet db eh (clean_question_text db q) name cfg \<and>
         exact_result db df name cfg qc i (df_rows df ! i) \<in>
           set (exact_search_in_sheet db eh (clean_question_text db q) name cfg) \<and>
         match_score (exact_result db df name cfg qc i (df_rows df ! i)) = 1 \<and>
         matched_method (exact_result db df name cfg qc i (df_rows df ! i)) = ''exact'' \<and>
         row_index (exact_result db df name cfg qc i (df_rows df ! i)) = i \<and>
         question (exact_result db df name cfg qc i (df_rows df ! i)) = s \<and>
         filter (\<lambda>r. row_index r = i) (search_in_sheet db fz eh q name cfg) =
           (if s \<noteq> [] \<and> s \<noteq> [110, 97, 110] \<and>
               get_threshold eh \<le> calculate_match_score fz (clean_question_text db q) (clean_question_text db s)
            then [fuzzy_result db fz df name cfg qc (clean_question_text db q) i (df_rows df ! i),
                  exact_result db df name cfg qc i (df_rows df ! i)]
            else [exact_result db df name cfg qc i (df_rows df ! i)])"
proof -
  let ?c = "clean_question_text db q"
  let ?rows = "df_rows df"
  let ?ex = "exact_result db df name cfg qc i (?rows ! i)"
  let ?g = "\<lambda>ir. if cell_contains (u_ci_eq db) ?c (snd ir qc)
                   then [exact_result db df name cfg qc (fst ir) (snd ir)] else []"
  have c1: "search_in_sheet db fz eh q name cfg =
      concat (map (fuzzy_row db fz eh df name cfg qc ?c) (enumerate 0 ?rows)) @
      exact_search_in_sheet db eh ?c name cfg"
    using loaded qcol by (simp add: search_in_sheet_def Let_def)
  have ex: "exact_search_in_sheet db eh ?c name cfg = concat (map ?g (enumerate 0 ?rows))"
    by (rule exact_search_valid [OF loaded qcol(1) qcol(3) qcol(4)])
  have gi: "\<And>idx r. \<forall>x \<in> set (?g (idx, r)). row_index x = idx"
    by (simp add: exact_result_def)
  have fi: "\<And>idx r. \<forall>x \<in> set (fuzzy_row db fz eh df name cfg qc ?c (idx, r)). row_index x = idx"
    by (simp add: fuzzy_row_def fuzzy_result_def Let_def)
  have fex: "filter (\<lambda>r. row_index r = i) (exact_search_in_sheet db eh ?c name cfg) = [?ex]"
    unfolding ex filter_index_enumerate [of ?g, OF gi] using row hit by simp
  have ffz: "filter (\<lambda>r. row_index r = i)
        (concat (map (fuzzy_row db fz eh df name cfg qc ?c) (enumerate 0 ?rows))) =
      fuzzy_row db fz eh df name cfg qc ?c (i, ?rows ! i)"
    unfolding filter_index_enumerate [of "fuzzy_row db fz eh df name cfg qc ?c", OF fi]
    using row by simp
  have c2: "?ex \<in> set (exact_search_in_sheet db eh ?c name cfg)"
  proof -
    have "?ex \<in> set (filter (\<lambda>r. row_index r = i) (exact_search_in_sheet db eh ?c name cfg))"
      unfolding fex by simp
    then show ?thesis by simp
  qed
  have c3: "match_score ?ex = 1" "matched_method ?ex = ''exact''" "row_index ?ex = i"
      "question ?ex = s"
    using row by (simp_all add: exact_result_def)
  have c4: "filter (\<lambda>r. row_index r = i) (search_in_sheet db fz eh q name cfg) =
      (if s \<noteq> [] \<and> s \<noteq> [110, 97, 110] \<and>
          get_threshold eh \<le> calculate_match_score fz ?c (clean_question_text db s)
       then [fuzzy_result db fz df name cfg qc ?c i (?rows ! i), ?ex] else [?ex])"
    unfolding c1 filter_append fex ffz using row
    by (simp add: fuzzy_row_def Let_def)
  from c1 c2 c3 c4 show ?thesis by blast
qed


lemma twice_clean: "clean_question_text basic_db (ascii ''what IS 2'') = ascii ''what is 2''"
  by (simp add: clean_question_text_def basic_db_def strip_def lstrip_def rstrip_def py_isspace_def
        keep_char_def is_word_def ascii_alnum_def ascii_lower_char_def ascii_def)

lemma twice_cell: "(df_rows twice_df ! 0) (ascii ''Q'') = Str (ascii ''What is 2'')"
  by (simp add: twice_df_def row_of_def)

lemma twice_hit:
  "str_contains (u_ci_eq basic_db) (ascii ''what is 2'') (ascii ''What is 2'')"
  by (simp add: basic_db_def ascii_lower_char_def ascii_def)

lemma twice_score:
  "calculate_match_score unit_fuzz (ascii ''what is 2'') (ascii ''what is 2'') = 1"
  by (simp add: calculate_match_score_def sub_scores_def weights_def unit_fuzz_def ascii_def)

lemma twice_clean_stored: "clean_question_text basic_db (ascii ''What is 2'') = ascii ''what is 2''"
  by (simp add: clean_question_text_def basic_db_def strip_def lstrip_def rstrip_def py_isspace_def
        keep_char_def is_word_def ascii_alnum_def ascii_lower_char_def ascii_def)

theorem exact_match_reported_witness:
  "map_of (cache twice_bank) (ascii ''S'') = Some twice_df \<and>
   question_column twice_config = Some (ascii ''Q'') \<and> ascii ''Q'' \<noteq> [] \<and>
   ascii ''Q'' \<in> set (df_columns twice_df) \<and> ascii ''Q'' \<in> set (df_str_columns twice_df) \<and>
   0 < length (df_rows twice_df) \<and> (df_rows twice_df ! 0) (ascii ''Q'') = Str (ascii ''What is 2'') \<and>
   str_contains (u_ci_eq basic_db) (clean_question_text basic_db (ascii ''what IS 2'')) (ascii ''What is 2'') \<and>
   filter (\<lambda>r. row_index r = 0)
     (search_in_sheet basic_db unit_fuzz twice_bank (ascii ''what IS 2'') (ascii ''S'') twice_config) =
     [fuzzy_result basic_db unit_fuzz twice_df (ascii ''S'') twice_config (ascii ''Q'')
        (clean_question_text basic_db (ascii ''what IS 2'')) 0 (df_rows twice_df ! 0),
      exact_result basic_db twice_df (ascii ''S'') twice_config (ascii ''Q'') 0 (df_rows twice_df ! 0)]"
proof -
  have h1: "map_of (cache twice_bank) (ascii ''S'') = Some twice_df"
    by (simp add: twice_bank_def)
  have h2: "question_column twice_config = Some (ascii ''Q'')"
    by (simp add: twice_config_def)
  have h3: "ascii ''Q'' \<noteq> []" and h4: "ascii ''Q'' \<in> set (df_columns twice_df)"
    and h5: "ascii ''Q'' \<in> set (df_str_columns twice_df)"
    by (simp_all add: ascii_def twice_df_def)
  have h6: "0 < length (df_rows twice_df)"
    by (simp add: twice_df_def)
  have h8: "str_contains (u_ci_eq basic_db) (clean_question_text basic_db (ascii ''what IS 2''))
      (ascii ''What is 2'')"
    by (simp only: twice_clean twice_hit)
  have ne: "ascii ''What is 2'' \<noteq> []" "ascii ''What is 2'' \<noteq> [110, 97, 110]"
    by (simp_all add: ascii_def)
  have th: "get_threshold twice_bank \<le>
      calculate_match_score unit_fuzz (clean_question_text basic_db (ascii ''what IS 2''))
        (clean_question_text basic_db (ascii ''What is 2''))"
    by (simp add: twice_clean twice_clean_stored twice_score get_threshold_def twice_bank_def)
  note t = exact_match_reported [OF h1 h2 h3 h4 h5 h6 twice_cell h8, of unit_fuzz]
  have cond: "ascii ''What is 2'' \<noteq> [] \<and> ascii ''What is 2'' \<noteq> [110, 97, 110] \<and>
      get_threshold twice_bank \<le>
        calculate_match_score unit_fuzz (clean_question_text basic_db (ascii ''what IS 2''))
          (clean_question_text basic_db (ascii ''What is 2''))"
    by (intro conjI ne th)
  note f = t [THEN conjunct2, THEN conjunct2, THEN conjunct2, THEN conjunct2, THEN conjunct2,
              THEN conjunct2]
  have "filter (\<lambda>r. row_index r = 0)
     (search_in_sheet basic_db unit_fuzz twice_bank (ascii ''what IS 2'') (ascii ''S'') twice_config) =
     [fuzzy_result basic_db unit_fuzz twice_df (ascii ''S'') twice_config (ascii ''Q'')
        (clean_question_text basic_db (ascii ''what IS 2'')) 0 (df_rows twice_df ! 0),
      exact_result basic_db twice_df (ascii ''S'') twice_config (ascii ''Q'') 0 (df_rows twice_df ! 0)]"
    by (rule f [unfolded if_P [OF cond]])
  with h1 h2 h3 h4 h5 h6 twice_cell h8 show ?thesis by blast
qed

lemma extract_options_eq:
  "i + length cs \<le> 1114047 \<Longrightarrow>
   extract_options cols row i cs acc =
     (acc @ map (\<lambda>(j, col). ([65 + j], py_str (row col)))
              (filter (\<lambda>(j, col). col \<in> set cols \<and> notna (row col)) (enumerate i cs)), True)"
  by (induction cs arbitrary: i acc) simp_all

lemma extract_answer_info_options:
  assumes "length (answer_columns cfg) \<le> 1114047"
  shows "options (extract_answer_info db cols row cfg) =
         map (\<lambda>(j, col). ([65 + j], py_str (row col)))
           (filter (\<lambda>(j, col). col \<in> set cols \<and> notna (row col)) (enumerate 0 (answer_columns cfg)))"
  using assms
  by (simp add: extract_answer_info_def extract_options_eq Let_def split: option.splits)

lemma extract_answer_info_correct:
  assumes "length (answer_columns cfg) \<le> 1114047"
    and "correct_answer_column cfg = Some cc" "cc \<noteq> []" "cc \<in> set cols" "notna (row cc)"
  shows "correct_answer (extract_answer_info db cols row cfg) = py_str (row cc) \<and>
         answer_text (extract_answer_info db cols row cfg) =
           (case map_of (options (extract_answer_info db cols row cfg)) (u_upper db (py_str (row cc))) of
              Some t \<Rightarrow> t | None \<Rightarrow> py_str (row cc))"
  using assms
  by (simp add: extract_answer_info_def extract_options_eq Let_def split: option.splits)

lemma scenario_clean:
  "clean_question_text basic_db scenario_query = [49, 49, 31561, 20110, 22810, 23569]"
  by (simp add: scenario_query_def clean_question_text_def basic_db_def strip_def lstrip_def
        rstrip_def py_isspace_def keep_char_def is_word_def ascii_alnum_def ascii_lower_char_def)

lemma scenario_info:
  "extract_answer_info basic_db (df_columns scenario_df) scenario_row scenario_config =
     \<lparr>options = [([66], [49]), ([67], [50]), ([68], [51]), ([69], [52]), ([70], [52])],
      correct_answer = [66], answer_text = [49]\<rparr>"
  by (simp add: extract_answer_info_def scenario_df_def scenario_row_def scenario_config_def
        row_of_def ascii_def basic_db_def ascii_upper_char_def Let_def)

lemma scenario_cell: "scenario_row (ascii ''Q'') = Str scenario_query"
  by (simp add: scenario_row_def row_of_def ascii_def)

lemma scenario_no_hit:
  "\<not> str_contains (u_ci_eq basic_db) [49, 49, 31561, 20110, 22810, 23569] scenario_query"
  by (simp add: scenario_query_def basic_db_def ascii_lower_char_def)

lemma scenario_exact:
  "exact_search_in_sheet basic_db scenario_bank [49, 49, 31561, 20110, 22810, 23569]
     (ascii ''S'') scenario_config = []"
proof -
  have c: "map_of (cache scenario_bank) (ascii ''S'') = Some scenario_df"
    by (simp add: scenario_bank_def)
  have q: "question_column scenario_config = Some (ascii ''Q'')"
    by (simp add: scenario_config_def)
  have r: "df_rows scenario_df = [scenario_row]"
    by (simp add: scenario_df_def)
  show ?thesis
    by (simp add: exact_search_in_sheet_def c q r scenario_cell scenario_no_hit)
qed

lemma scenario_score:
  assumes "fuzz_identical fz [49, 49, 31561, 20110, 22810, 23569]"
  shows "calculate_match_score fz [49, 49, 31561, 20110, 22810, 23569]
           [49, 49, 31561, 20110, 22810, 23569] = 1"
  using assms
  by (simp add: fuzz_identical_def calculate_match_score_def sub_scores_def weights_def)

lemma scenario_search_in_sheet:
  assumes "fuzz_identical fz [49, 49, 31561, 20110, 22810, 23569]"
  shows "search_in_sheet basic_db fz scenario_bank scenario_query (ascii ''S'') scenario_config =
         [fuzzy_result basic_db fz scenario_df (ascii ''S'') scenario_config (ascii ''Q'')
            [49, 49, 31561, 20110, 22810, 23569] 0 scenario_row]"
proof -
  have c: "map_of (cache scenario_bank) (ascii ''S'') = Some scenario_df"
    by (simp add: scenario_bank_def)
  have q: "question_column scenario_config = Some (ascii ''Q'')"
    by (simp add: scenario_config_def)
  have qn: "ascii ''Q'' \<noteq> []" "ascii ''Q'' \<in> set (df_columns scenario_df)"
    by (simp_all add: ascii_def scenario_df_def)
  have r: "df_rows scenario_df = [scenario_row]"
    by (simp add: scenario_df_def)
  have th: "get_threshold scenario_bank = 8 / 10"
    by (simp add: get_threshold_def scenario_bank_def)
  have ne: "scenario_query \<noteq> []" "scenario_query \<noteq> [110, 97, 110]"
    by (simp_all add: scenario_query_def)
  have fr: "fuzzy_row basic_db fz scenario_bank scenario_df (ascii ''S'') scenario_config (ascii ''Q'')
        [49, 49, 31561, 20110, 22810, 23569] (0, scenario_row) =
      [fuzzy_result basic_db fz scenario_df (ascii ''S'') scenario_config (ascii ''Q'')
         [49, 49, 31561, 20110, 22810, 23569] 0 scenario_row]"
    by (simp add: fuzzy_row_def scenario_cell ne scenario_clean scenario_score [OF assms] th)
  show ?thesis
    unfolding search_in_sheet_def c q
    by (simp add: qn r scenario_clean scenario_exact fr)
qed

lemma scenario_search_question:
  assumes "fuzz_identical fz [49, 49, 31561, 20110, 22810, 23569]"
  shows "search_question basic_db fz scenario_bank scenario_query =
         [fuzzy_result basic_db fz scenario_df (ascii ''S'') scenario_config (ascii ''Q'')
            [49, 49, 31561, 20110, 22810, 23569] 0 scenario_row]"
proof -
  have c: "map_of (cache scenario_bank) (ascii ''S'') = Some scenario_df"
    by (simp add: scenario_bank_def)
  have s: "sheets_config scenario_bank = [(ascii ''S'', scenario_config)]"
    by (simp add: scenario_bank_def)
  have m: "get_max_results scenario_bank = 3"
    by (simp add: get_max_results_def scenario_bank_def)
  show ?thesis
    by (simp add: search_question_def all_results_def s c m py_slice_to_def
          scenario_search_in_sheet [OF assms])
qed

lemma scenario_result:
  assumes "fuzz_identical fz [49, 49, 31561, 20110, 22810, 23569]"
  shows "map (\<lambda>r. (match_score r, answer_text (answer_inf r)))
           (search_question basic_db fz scenario_bank scenario_query) = [(1, [49])] \<and>
         map (\<lambda>r. options (answer_inf r)) (search_question basic_db fz scenario_bank scenario_query) =
           [[([66], [49]), ([67], [50]), ([68], [51]), ([69], [52]), ([70], [52])]]"
  by (simp add: scenario_search_question [OF assms] fuzzy_result_def scenario_info scenario_cell
        scenario_clean scenario_score [OF assms])

lemma unit_fuzz_identical: "fuzz_identical unit_fuzz s"
  by (simp add: fuzz_identical_def unit_fuzz_def)

text \<open>
  C4, as amended. With fewer answer columns than code points from A on, the options are
  the answer columns that are columns of the sheet and hold a value in the row, each under
  the letter of its position in the configured list (A for the first, B for the second),
  and a correct-answer value whose upper-cased form is one of these letters is resolved to
  the text of that option, any other value is kept as it is. For the query of the scenario
  against the bank whose only row has the same question text, the options B:1, C:2, D:3,
  E:4, F:4 and the correct answer B, and a library that scores identical strings 100, the
  one match has score 1 and the resolved answer text 1.
\<close>

theorem extract_answer_info_resolution:
  "(length (answer_columns cfg) \<le> 1114047 \<longrightarrow>
      options (extract_answer_info db cols row cfg) =
        map (\<lambda>(j, col). ([65 + j], py_str (row col)))
          (filter (\<lambda>(j, col). col \<in> set cols \<and> notna (row col)) (enumerate 0 (answer_columns cfg))) \<and>
      (\<forall>cc. correct_answer_column cfg = Some cc \<and> cc \<noteq> [] \<and> cc \<in> set cols \<and> notna (row cc) \<longrightarrow>
         correct_answer (extract_answer_info db cols row cfg) = py_str (row cc) \<and>
         answer_text (extract_answer_info db cols row cfg) =
           (case map_of (options (extract_answer_info db cols row cfg)) (u_upper db (py_str (row cc))) of
              Some t \<Rightarrow> t | None \<Rightarrow> py_str (row cc)))) \<and>
   (fuzz_identical fz (clean_question_text basic_db scenario_query) \<longrightarrow>
      map (\<lambda>r. (match_score r, answer_text (answer_inf r)))
        (search_question basic_db fz scenario_bank scenario_query) = [(1, ascii ''1'')] \<and>
      map (\<lambda>r. options (answer_inf r)) (search_question basic_db fz scenario_bank scenario_query) =
        [[(ascii ''B'', ascii ''1''), (ascii ''C'', ascii ''2''), (ascii ''D'', ascii ''3''),
          (ascii ''E'', ascii ''4''), (ascii ''F'', ascii ''4'')]])"
proof -
  have a: "length (answer_columns cfg) \<le> 1114047 \<longrightarrow>
      options (extract_answer_info db cols row cfg) =
        map (\<lambda>(j, col). ([65 + j], py_str (row col)))
          (filter (\<lambda>(j, col). col \<in> set cols \<and> notna (row col)) (enumerate 0 (answer_columns cfg))) \<and>
      (\<forall>cc. correct_answer_column cfg = Some cc \<and> cc \<noteq> [] \<and> cc \<in> set cols \<and> notna (row cc) \<longrightarrow>
         correct_answer (extract_answer_info db cols row cfg) = py_str (row cc) \<and>
         answer_text (extract_answer_info db cols row cfg) =
           (case map_of (options (extract_answer_info db cols row cfg)) (u_upper db (py_str (row cc))) of
              Some t \<Rightarrow> t | None \<Rightarrow> py_str (row cc)))"
    using extract_answer_info_options extract_answer_info_correct by blast
  have b: "fuzz_identical fz (clean_question_text basic_db scenario_query) \<longrightarrow>
      map (\<lambda>r. (match_score r, answer_text (answer_inf r)))
        (search_question basic_db fz scenario_bank scenario_query) = [(1, ascii ''1'')] \<and>
      map (\<lambda>r. options (answer_inf r)) (search_question basic_db fz scenario_bank scenario_query) =
        [[(ascii ''B'', ascii ''1''), (ascii ''C'', ascii ''2''), (ascii ''D'', ascii ''3''),
          (ascii ''E'', ascii ''4''), (ascii ''F'', ascii ''4'')]]"
  proof
    assume "fuzz_identical fz (clean_question_text basic_db scenario_query)"
    then have f: "fuzz_identical fz [49, 49, 31561, 20110, 22810, 23569]"
      by (simp add: scenario_clean)
    show "map (\<lambda>r. (match_score r, answer_text (answer_inf r)))
        (search_question basic_db fz scenario_bank scenario_query) = [(1, ascii ''1'')] \<and>
      map (\<lambda>r. options (answer_inf r)) (search_question basic_db fz scenario_bank scenario_query) =
        [[(ascii ''B'', ascii ''1''), (ascii ''C'', ascii ''2''), (ascii ''D'', ascii ''3''),
          (ascii ''E'', ascii ''4''), (ascii ''F'', ascii ''4'')]]"
      using scenario_result [OF f] by (simp add: ascii_def)
  qed
  from a b show ?thesis by blast
qed

theorem extract_answer_info_resolution_witness:
  "length (answer_columns scenario_config) \<le> 1114047 \<and>
   correct_answer_column scenario_config = Some (ascii ''R'') \<and> ascii ''R'' \<noteq> [] \<and>
   ascii ''R'' \<in> set (df_columns scenario_df) \<and> notna (scenario_row (ascii ''R'')) \<and>
   fuzz_identical unit_fuzz (clean_question_text basic_db scenario_query) \<and>
   correct_answer (extract_answer_info basic_db (df_columns scenario_df) scenario_row scenario_config) =
     py_str (scenario_row (ascii ''R'')) \<and>
   map (\<lambda>r. (match_score r, answer_text (answer_inf r)))
     (search_question basic_db unit_fuzz scenario_bank scenario_query) = [(1, ascii ''1'')]"
proof -
  have h1: "length (answer_columns scenario_config) \<le> 1114047"
    by (simp add: scenario_config_def)
  have h2: "correct_answer_column scenario_config = Some (ascii ''R'')"
    by (simp add: scenario_config_def)
  have h3: "ascii ''R'' \<noteq> []" "ascii ''R'' \<in> set (df_columns scenario_df)"
    by (simp_all add: ascii_def scenario_df_def)
  have h4: "notna (scenario_row (ascii ''R''))"
    by (simp add: scenario_row_def row_of_def ascii_def)
  have h5: "fuzz_identical unit_fuzz (clean_question_text basic_db scenario_query)"
    by (rule unit_fuzz_identical)
  from extract_answer_info_resolution
         [of scenario_config basic_db "df_columns scenario_df" scenario_row unit_fuzz]
       h1 h2 h3 h4 h5
  show ?thesis by blast
qed

text \<open>
  C4 as stated fails. The correct-answer value b is none of the option letters A to D, yet
  it is resolved to the text of option B instead of being kept; and in the scenario the
  exact pass reports nothing, because the cleaned query has lost its plus sign and question
  mark and is no substring of the stored text: the match is a fuzzy one.
\<close>

theorem extract_answer_info_counterexample:
  "correct_answer (extract_answer_info basic_db (df_columns sample_df) lower_row sample_config) = ascii ''b'' \<and>
   answer_text (extract_answer_info basic_db (df_columns sample_df) lower_row sample_config) = ascii ''2'' \<and>
   exact_search_in_sheet basic_db scenario_bank (clean_question_text basic_db scenario_query)
     (ascii ''S'') scenario_config = [] \<and>
   map matched_method (search_question basic_db unit_fuzz scenario_bank scenario_query) = [''fuzzy'']"
proof -
  have a: "extract_answer_info basic_db (df_columns sample_df) lower_row sample_config =
      \<lparr>options = [([65], [49]), ([66], [50]), ([67], [51]), ([68], [52])],
       correct_answer = [98], answer_text = [50]\<rparr>"
    by (simp add: extract_answer_info_def sample_df_def lower_row_def sample_config_def
          row_of_def ascii_def basic_db_def ascii_upper_char_def Let_def)
  have b: "map matched_method (search_question basic_db unit_fuzz scenario_bank scenario_query) = [''fuzzy'']"
    by (simp add: scenario_search_question [OF unit_fuzz_identical] fuzzy_result_def)
  have c: "exact_search_in_sheet basic_db scenario_bank (clean_question_text basic_db scenario_query)
      (ascii ''S'') scenario_config = []"
    by (simp add: scenario_clean scenario_exact)
  have a1: "correct_answer (extract_answer_info basic_db (df_columns sample_df) lower_row sample_config) = ascii ''b''"
    by (simp add: a ascii_def)
  have a2: "answer_text (extract_answer_info basic_db (df_columns sample_df) lower_row sample_config) = ascii ''2''"
    by (simp add: a ascii_def)
  from a1 a2 c b show ?thesis by blast
qed

lemma calculate_match_score_empty: "calculate_match_score fz [] t = 0"
  by (simp add: calculate_match_score_def)

lemma fuzzy_row_empty:
  "0 < get_threshold eh \<Longrightarrow> fuzzy_row db fz eh df name cfg qc [] = (\<lambda>ir. [])"
  by (rule ext) (simp add: fuzzy_row_def Let_def calculate_match_score_empty)

lemma str_contains_empty: "str_contains eq [] s"
  by (cases s) simp_all

lemma cell_contains_empty: "cell_contains eq [] c = is_string c"
  by (cases c) (simp_all add: is_string_def str_contains_empty)

lemma search_in_sheet_empty:
  assumes "clean_question_text db q = []" and "0 < get_threshold eh"
  shows "search_in_sheet db fz eh q name cfg = all_string_rows db eh name cfg"
  by (simp add: search_in_sheet_def all_string_rows_def exact_search_in_sheet_def Let_def assms(1)
        fuzzy_row_empty [OF assms(2)] cell_contains_empty split: option.splits)

lemma all_string_rows_score:
  "r \<in> set (all_string_rows db eh name cfg) \<Longrightarrow> match_score r = 1 \<and> matched_method r = ''exact''"
  by (auto simp: all_string_rows_def exact_result_def split: option.splits if_splits)

lemma all_string_rows_not_loaded:
  "map_of (cache eh) name = None \<Longrightarrow> all_string_rows db eh name cfg = []"
  by (simp add: all_string_rows_def)

lemma all_results_empty:
  assumes "clean_question_text db q = []" and "0 < get_threshold eh"
  shows "all_results db fz eh q =
         concat (map (\<lambda>(name, cfg). all_string_rows db eh name cfg) (sheets_config eh))"
proof -
  have one: "\<And>name cfg.
      (if map_of (cache eh) name = None then [] else search_in_sheet db fz eh q name cfg) =
      all_string_rows db eh name cfg"
    by (simp add: search_in_sheet_empty [OF assms] all_string_rows_not_loaded)
  show ?thesis
    by (simp add: all_results_def one)
qed

lemma sort_key_const:
  assumes "\<forall>x \<in> set xs. f x = c"
  shows "sort_key f xs = xs"
proof (rule sort_key_id_if_sorted)
  from assms have "map f xs = replicate (length xs) c"
    by (induction xs) simp_all
  then show "sorted (map f xs)" by simp
qed

text \<open>
  C10. When the cleaned query is empty (and the threshold is positive, the maximum count
  not negative), the blended score against every target is 0, the exact pass reports every
  row whose question cell is a string, in every configured sheet, and
  \<open>search_question\<close> returns the first of these rows up to the maximum count, each
  with score 1 and method exact.
\<close>

theorem empty_query_exact_matches:
  assumes "clean_question_text db q = []" and "0 < get_threshold eh" and "0 \<le> get_max_results eh"
  shows "(\<forall>t. calculate_match_score fz (clean_question_text db q) t = 0) \<and>
         search_question db fz eh q =
           take (nat (get_max_results eh))
             (concat (map (\<lambda>(name, cfg). all_string_rows db eh name cfg) (sheets_config eh))) \<and>
         (\<forall>r \<in> set (search_question db fz eh q). match_score r = 1 \<and> matched_method r = ''exact'')"
proof -
  let ?rows = "concat (map (\<lambda>(name, cfg). all_string_rows db eh name cfg) (sheets_config eh))"
  have c1: "\<forall>t. calculate_match_score fz (clean_question_text db q) t = 0"
    by (simp add: assms(1) calculate_match_score_empty)
  have sc: "\<forall>r \<in> set ?rows. match_score r = 1 \<and> matched_method r = ''exact''"
    by (auto dest: all_string_rows_score)
  then have "\<forall>r \<in> set ?rows. - match_score r = - 1" by simp
  then have srt: "sort_key (\<lambda>r. - match_score r) ?rows = ?rows"
    by (rule sort_key_const)
  have c2: "search_question db fz eh q = take (nat (get_max_results eh)) ?rows"
    using assms(3)
    by (simp add: search_question_def py_slice_to_def all_results_empty [OF assms(1,2)] srt)
  have c3: "\<forall>r \<in> set (search_question db fz eh q). match_score r = 1 \<and> matched_method r = ''exact''"
    unfolding c2 using sc by (meson in_set_takeD)
  from c1 c2 c3 show ?thesis by blast
qed

lemma clean_marks: "clean_question_text basic_db (ascii ''???'') = []"
  by (simp add: clean_question_text_def basic_db_def strip_def lstrip_def rstrip_def py_isspace_def
        keep_char_def is_word_def ascii_alnum_def ascii_lower_char_def ascii_def)

lemma sample_rows_eval:
  "map (\<lambda>r. (row_index r, match_score r, matched_method r))
     (all_string_rows basic_db sample_bank [25968, 23398, 38382, 39064] sample_config) =
   [(0, 1, ''exact''), (1, 1, ''exact''), (2, 1, ''exact'')]"
  by (simp add: all_string_rows_def sample_bank_def sample_config_def sample_df_def
        exact_result_def is_string_def row_of_def ascii_def enumerate_eq_zip)

theorem empty_query_exact_matches_witness:
  "clean_question_text basic_db (ascii ''???'') = [] \<and> 0 < get_threshold sample_bank \<and>
   0 \<le> get_max_results sample_bank \<and>
   map (\<lambda>r. (row_index r, match_score r, matched_method r))
     (search_question basic_db unit_fuzz sample_bank (ascii ''???'')) =
   [(0, 1, ''exact''), (1, 1, ''exact''), (2, 1, ''exact'')]"
proof -
  have h2: "0 < get_threshold sample_bank"
    by (simp add: get_threshold_def sample_bank_def)
  have h3: "0 \<le> get_max_results sample_bank"
    by (simp add: get_max_results_def sample_bank_def)
  have m: "nat (get_max_results sample_bank) = 3"
    by (simp add: get_max_results_def sample_bank_def)
  have cfg: "sheets_config sample_bank = [([25968, 23398, 38382, 39064], sample_config)]"
    by (simp add: sample_bank_def)
  note t = empty_query_exact_matches [OF clean_marks h2 h3, of unit_fuzz]
  from t have "search_question basic_db unit_fuzz sample_bank (ascii ''???'') =
      take 3 (all_string_rows basic_db sample_bank [25968, 23398, 38382, 39064] sample_config)"
    by (simp add: m cfg)
  then have "map (\<lambda>r. (row_index r, match_score r, matched_method r))
        (search_question basic_db unit_fuzz sample_bank (ascii ''???'')) =
      take 3 (map (\<lambda>r. (row_index r, match_score r, matched_method r))
        (all_string_rows basic_db sample_bank [25968, 23398, 38382, 39064] sample_config))"
    by (simp add: take_map)
  then have r: "map (\<lambda>r. (row_index r, match_score r, matched_method r))
        (search_question basic_db unit_fuzz sample_bank (ascii ''???'')) =
      [(0, 1, ''exact''), (1, 1, ''exact''), (2, 1, ''exact'')]"
    by (simp add: sample_rows_eval)
  from r clean_marks h2 h3 show ?thesis by blast
qed

section \<open>Properties of the model solver\<close>

lemma startswith_hd: "startswith l p \<Longrightarrow> p \<noteq> [] \<Longrightarrow> l \<noteq> [] \<and> hd l = hd p"
  by (cases l; cases p) (auto simp: startswith_def)

lemma label_reasoning_hd: "has_label label_reasoning l \<Longrightarrow> l \<noteq> [] \<and> hd l = 24605"
  by (auto simp: has_label_def label_reasoning_def dest!: startswith_hd)

lemma label_answer_hd: "has_label label_answer l \<Longrightarrow> l \<noteq> [] \<and> hd l = 31572"
  by (auto simp: has_label_def label_answer_def dest!: startswith_hd)

lemma label_question_type_hd:
  "has_label label_question_type l \<Longrightarrow> l \<noteq> [] \<and> (hd l = 21839 \<or> hd l = 38382)"
  by (auto simp: has_label_def label_question_type_def dest!: startswith_hd)

lemma label_legacy_reasoning_hd: "has_label label_legacy_reasoning l \<Longrightarrow> l \<noteq> [] \<and> hd l = 35299"
  by (auto simp: has_label_def label_legacy_reasoning_def dest!: startswith_hd)

lemma label_correct_option_hd: "has_label label_correct_option l \<Longrightarrow> l \<noteq> [] \<and> hd l = 27491"
  by (auto simp: has_label_def label_correct_option_def dest!: startswith_hd)

lemma parse_line_reasoning:
  "reasoning (parse_line r x) = (if writes_reasoning x then after_colon (strip x) else reasoning r)"
  using label_reasoning_hd [of "strip x"] label_answer_hd [of "strip x"]
    label_question_type_hd [of "strip x"] label_legacy_reasoning_hd [of "strip x"]
    label_correct_option_hd [of "strip x"]
  by (auto simp: parse_line_def Let_def writes_reasoning_def)

lemma parse_line_answer:
  "answer (parse_line r x) = (if writes_answer x then after_colon (strip x) else answer r)"
  using label_reasoning_hd [of "strip x"] label_answer_hd [of "strip x"]
    label_question_type_hd [of "strip x"] label_legacy_reasoning_hd [of "strip x"]
    label_correct_option_hd [of "strip x"]
  by (auto simp: parse_line_def Let_def writes_answer_def)

lemma parse_line_question_type:
  "question_type (parse_line r x) =
     (if writes_question_type x then after_colon (strip x) else question_type r)"
  using label_reasoning_hd [of "strip x"] label_answer_hd [of "strip x"]
    label_question_type_hd [of "strip x"] label_legacy_reasoning_hd [of "strip x"]
    label_correct_option_hd [of "strip x"]
  by (auto simp: parse_line_def Let_def writes_question_type_def)

lemma parse_line_correct_option:
  "correct_option (parse_line r x) =
     (if writes_correct_option x then after_colon (strip x) else correct_option r)"
  using label_reasoning_hd [of "strip x"] label_answer_hd [of "strip x"]
    label_question_type_hd [of "strip x"] label_legacy_reasoning_hd [of "strip x"]
    label_correct_option_hd [of "strip x"]
  by (auto simp: parse_line_def Let_def writes_correct_option_def)

lemma loop_field:
  assumes "\<And>r x. fld (parse_line r x) = (if w x then after_colon (strip x) else fld r)"
  shows "fld (foldl parse_line r lines) =
         (if filter w lines = [] then fld r else after_colon (strip (last (filter w lines))))"
  by (induction lines rule: rev_induct) (simp_all add: assms)

lemma loop_fields:
  "reasoning (foldl parse_line init_answer lines) = last_value writes_reasoning lines"
  "answer (foldl parse_line init_answer lines) = last_value writes_answer lines"
  "question_type (foldl parse_line init_answer lines) = last_value writes_question_type lines"
  "correct_option (foldl parse_line init_answer lines) = last_value writes_correct_option lines"
  by (simp_all add: loop_field [of reasoning, OF parse_line_reasoning]
        loop_field [of answer, OF parse_line_answer]
        loop_field [of question_type, OF parse_line_question_type]
        loop_field [of correct_option, OF parse_line_correct_option]
        last_value_def init_answer_def)

text \<open>
  C5, as amended. The loop assigns a field on every line that starts with one of its
  labels, so the value from the last such line stands: the reasoning and the question type
  of the parsed answer are the values of the last line with a label of that field, and so
  are the answer and the correct option whenever that value is not empty (an empty one is
  replaced by the fallback or by the extracted letter).
\<close>

theorem parse_answer_last_label_wins:
  "reasoning (parse_answer db t) = last_value writes_reasoning (split_on 10 (strip t)) \<and>
   question_type (parse_answer db t) = last_value writes_question_type (split_on 10 (strip t)) \<and>
   (last_value writes_answer (split_on 10 (strip t)) \<noteq> [] \<longrightarrow>
      answer (parse_answer db t) = last_value writes_answer (split_on 10 (strip t))) \<and>
   (last_value writes_correct_option (split_on 10 (strip t)) \<noteq> [] \<longrightarrow>
      correct_option (parse_answer db t) = last_value writes_correct_option (split_on 10 (strip t)))"
  by (simp add: parse_answer_def Let_def loop_fields)

lemma two_answers_lines:
  "split_on 10 (strip two_answers) = [[31572, 12360, 58, 32, 49], [31572, 12360, 58, 32, 50]]"
  by (simp add: two_answers_def strip_def lstrip_def rstrip_def py_isspace_def)

lemma two_answers_last:
  "last_value writes_answer (split_on 10 (strip two_answers)) = [50]"
  unfolding two_answers_lines
  by (simp add: last_value_def writes_answer_def has_label_def label_answer_def
        startswith_def after_colon_def strip_def lstrip_def rstrip_def py_isspace_def)

theorem parse_answer_last_label_wins_witness:
  "last_value writes_answer (split_on 10 (strip two_answers)) \<noteq> [] \<and>
   answer (parse_answer basic_db two_answers) = ascii ''2''"
proof -
  have h: "last_value writes_answer (split_on 10 (strip two_answers)) \<noteq> []"
    by (simp add: two_answers_last)
  from parse_answer_last_label_wins [of basic_db two_answers] h
  have "answer (parse_answer basic_db two_answers) = last_value writes_answer (split_on 10 (strip two_answers))"
    by blast
  then have "answer (parse_answer basic_db two_answers) = ascii ''2''"
    by (simp add: two_answers_last ascii_def)
  with h show ?thesis by blast
qed

text \<open>
  C5 as stated fails: of two lines with the answer label, the first with the value 1 and
  the second with the value 2, the extracted answer is 2.
\<close>

theorem parse_answer_first_counterexample:
  "after_colon (strip (hd (split_on 10 (strip two_answers)))) = ascii ''1'' \<and>
   writes_answer (hd (split_on 10 (strip two_answers))) \<and>
   answer (parse_answer basic_db two_answers) = ascii ''2''"
proof -
  have a: "after_colon (strip (hd (split_on 10 (strip two_answers)))) = ascii ''1''"
    unfolding two_answers_lines
    by (simp add: after_colon_def strip_def lstrip_def rstrip_def py_isspace_def ascii_def)
  have b: "writes_answer (hd (split_on 10 (strip two_answers)))"
    unfolding two_answers_lines
    by (simp add: writes_answer_def has_label_def label_answer_def
          startswith_def strip_def lstrip_def rstrip_def py_isspace_def)
  have c: "answer (foldl parse_line init_answer (split_on 10 (strip two_answers))) = [50]"
    by (simp add: loop_fields two_answers_last)
  have d: "answer (parse_answer basic_db two_answers) = ascii ''2''"
    by (simp add: parse_answer_def Let_def c ascii_def)
  from a b d show ?thesis by blast
qed

subsection \<open>The fallback and the option letter\<close>

lemma search_bare_option_letter:
  "search_bare_option db prev s = Some c \<Longrightarrow> is_option_letter c"
  by (induction s arbitrary: prev) (auto split: if_splits)

lemma colon_option_letter: "colon_option s = Some c \<Longrightarrow> is_option_letter c"
  by (cases s) (auto split: if_splits list.splits)

lemma greedy_any_letter: "greedy_any s = Some c \<Longrightarrow> is_option_letter c"
  by (induction s) (auto split: if_splits option.splits list.splits dest: colon_option_letter)

lemma search_labelled_option_letter: "search_labelled_option s = Some c \<Longrightarrow> is_option_letter c"
  by (induction s) (auto split: if_splits option.splits dest: greedy_any_letter)

lemma upper_option_range: "is_option_letter c \<Longrightarrow> 65 \<le> upper_option c \<and> upper_option c \<le> 68"
  by (auto simp: is_option_letter_def upper_option_def)

lemma extract_option_range:
  "extract_option db a = [] \<or> (\<exists>c. extract_option db a = [c] \<and> 65 \<le> c \<and> c \<le> 68)"
  by (auto simp: extract_option_def split: option.splits
      dest!: search_bare_option_letter search_labelled_option_letter upper_option_range)

lemma extract_option_bare_c: "extract_option db (ascii ''C'') = ascii ''C''"
  by (simp add: extract_option_def ascii_def is_option_letter_def upper_option_def is_word_def
        ascii_alnum_def)

lemma parse_answer_no_label:
  assumes "\<forall>l \<in> set (split_on 10 (strip t)). \<not> writes_answer l \<and> \<not> writes_correct_option l"
  shows "answer (parse_answer db t) = fallback_answer t"
    and "correct_option (parse_answer db t) = extract_option db (fallback_answer t)"
proof -
  from assms have "filter writes_answer (split_on 10 (strip t)) = []"
    and "filter writes_correct_option (split_on 10 (strip t)) = []"
    by (simp_all add: filter_empty_conv)
  then have e: "last_value writes_answer (split_on 10 (strip t)) = []"
      "last_value writes_correct_option (split_on 10 (strip t)) = []"
    by (simp_all add: last_value_def)
  show "answer (parse_answer db t) = fallback_answer t"
    by (simp add: parse_answer_def Let_def loop_fields e)
  show "correct_option (parse_answer db t) = extract_option db (fallback_answer t)"
    by (simp add: parse_answer_def Let_def loop_fields e)
qed

lemma answer_42_value: "after_colon answer_42 = ascii ''42''"
  by (simp add: answer_42_def after_colon_def strip_def lstrip_def rstrip_def py_isspace_def ascii_def)

lemma answer_42_label: "has_label label_answer answer_42"
  by (simp add: answer_42_def has_label_def label_answer_def startswith_def)

lemma answer_42_nonempty: "ascii ''42'' \<noteq> []"
  by (simp add: ascii_def)

lemma parse_answer_42_line:
  assumes "split_on 10 (strip t) = pre @ l # post" and "strip l = answer_42"
    and "\<forall>x \<in> set post. \<not> writes_answer x"
  shows "answer (parse_answer db t) = ascii ''42''"
proof -
  have w: "writes_answer l"
    by (simp add: writes_answer_def assms(2) answer_42_label)
  from assms(3) have "filter writes_answer post = []"
    by (simp add: filter_empty_conv)
  then have "filter writes_answer (split_on 10 (strip t)) = filter writes_answer pre @ [l]"
    by (simp add: assms(1) w)
  then have "last_value writes_answer (split_on 10 (strip t)) = ascii ''42''"
    by (simp add: last_value_def assms(2) answer_42_value)
  then show ?thesis
    by (simp add: parse_answer_def Let_def loop_fields answer_42_nonempty)
qed

lemma option_letter_not_space: "is_option_letter c \<Longrightarrow> \<not> py_isspace c"
  by (auto simp: is_option_letter_def py_isspace_def)

lemma search_bare_option_sound:
  "search_bare_option db prev s = Some c \<Longrightarrow>
   \<exists>pre post. s = pre @ c # post \<and> is_option_letter c \<and>
     word_boundary db (if pre = [] then prev else Some (last pre)) (Some c) \<and>
     word_boundary db (Some c) (case post of [] \<Rightarrow> None | n # _ \<Rightarrow> Some n) \<and>
     (\<forall>p1 x p2. pre = p1 @ x # p2 \<longrightarrow>
        \<not> (is_option_letter x \<and>
           word_boundary db (if p1 = [] then prev else Some (last p1)) (Some x) \<and>
           word_boundary db (Some x) (case p2 @ c # post of [] \<Rightarrow> None | n # _ \<Rightarrow> Some n)))"
proof (induction s arbitrary: prev)
  case Nil
  then show ?case by simp
next
  case (Cons a s)
  show ?case
  proof (cases "is_option_letter a \<and> word_boundary db prev (Some a) \<and>
         word_boundary db (Some a) (case s of [] \<Rightarrow> None | n # _ \<Rightarrow> Some n)")
    case True
    with Cons.prems have "a = c" by (simp del: word_boundary.simps)
    with True show ?thesis
      by (intro exI [of _ "[]"] exI [of _ s]) (simp del: word_boundary.simps)
  next
    case False
    with Cons.prems have "search_bare_option db (Some a) s = Some c"
      by (simp del: word_boundary.simps)
    from Cons.IH [OF this] obtain pre post where
      s: "s = pre @ c # post" and l: "is_option_letter c"
      and b1: "word_boundary db (if pre = [] then Some a else Some (last pre)) (Some c)"
      and b2: "word_boundary db (Some c) (case post of [] \<Rightarrow> None | n # _ \<Rightarrow> Some n)"
      and lm: "\<forall>p1 x p2. pre = p1 @ x # p2 \<longrightarrow>
        \<not> (is_option_letter x \<and>
           word_boundary db (if p1 = [] then Some a else Some (last p1)) (Some x) \<and>
           word_boundary db (Some x) (case p2 @ c # post of [] \<Rightarrow> None | n # _ \<Rightarrow> Some n))"
      by blast
    have e: "a # s = (a # pre) @ c # post" using s by simp
    have b1': "word_boundary db (if a # pre = [] then prev else Some (last (a # pre))) (Some c)"
      using b1 by (cases "pre = []") (simp_all del: word_boundary.simps)
    have lm': "\<forall>p1 x p2. a # pre = p1 @ x # p2 \<longrightarrow>
        \<not> (is_option_letter x \<and>
           word_boundary db (if p1 = [] then prev else Some (last p1)) (Some x) \<and>
           word_boundary db (Some x) (case p2 @ c # post of [] \<Rightarrow> None | n # _ \<Rightarrow> Some n))"
    proof (intro allI impI)
      fix p1 x p2
      assume h: "a # pre = p1 @ x # p2"
      show "\<not> (is_option_letter x \<and>
           word_boundary db (if p1 = [] then prev else Some (last p1)) (Some x) \<and>
           word_boundary db (Some x) (case p2 @ c # post of [] \<Rightarrow> None | n # _ \<Rightarrow> Some n))"
      proof (cases p1)
        case Nil
        with h have "x = a" "p2 = pre" by simp_all
        with False s Nil show ?thesis by (simp del: word_boundary.simps)
      next
        case (Cons y ys)
        with h have "y = a" "pre = ys @ x # p2" by simp_all
        with lm [rule_format, of ys x p2] Cons show ?thesis
          by (cases "ys = []") (simp_all del: word_boundary.simps)
      qed
    qed
    from e l b1' b2 lm' show ?thesis by blast
  qed
qed

lemma search_bare_option_complete:
  "is_option_letter c \<Longrightarrow>
   word_boundary db (if pre = [] then prev else Some (last pre)) (Some c) \<Longrightarrow>
   word_boundary db (Some c) (case post of [] \<Rightarrow> None | n # _ \<Rightarrow> Some n) \<Longrightarrow>
   search_bare_option db prev (pre @ c # post) \<noteq> None"
proof (induction pre arbitrary: prev)
  case Nil
  then show ?case by (simp del: word_boundary.simps)
next
  case (Cons a pre)
  from Cons.prems(2) have "word_boundary db (if pre = [] then Some a else Some (last pre)) (Some c)"
    by (cases "pre = []") (simp_all del: word_boundary.simps)
  from Cons.IH [OF Cons.prems(1) this Cons.prems(3)] show ?case
    by (simp del: word_boundary.simps)
qed

lemma colon_option_iff:
  "colon_option s = Some l \<longleftrightarrow>
   (\<exists>colon ws rest. s = colon # ws @ l # rest \<and> (colon = 65306 \<or> colon = 58) \<and>
      (\<forall>w \<in> set ws. py_isspace w) \<and> is_option_letter l)"
proof
  assume h: "colon_option s = Some l"
  then obtain c cs where s: "s = c # cs" by (cases s) simp_all
  from h s have c: "c = 65306 \<or> c = 58" by (simp split: if_splits)
  from h s c obtain rest where d: "dropWhile py_isspace cs = l # rest" and l: "is_option_letter l"
    by (auto split: list.splits if_splits)
  have "cs = takeWhile py_isspace cs @ l # rest"
    using takeWhile_dropWhile_id [of py_isspace cs] d by simp
  moreover have "\<forall>w \<in> set (takeWhile py_isspace cs). py_isspace w"
    by (auto dest: set_takeWhileD)
  ultimately show "\<exists>colon ws rest. s = colon # ws @ l # rest \<and> (colon = 65306 \<or> colon = 58) \<and>
      (\<forall>w \<in> set ws. py_isspace w) \<and> is_option_letter l"
    using s c l by blast
next
  assume "\<exists>colon ws rest. s = colon # ws @ l # rest \<and> (colon = 65306 \<or> colon = 58) \<and>
      (\<forall>w \<in> set ws. py_isspace w) \<and> is_option_letter l"
  then obtain colon ws rest where s: "s = colon # ws @ l # rest" and c: "colon = 65306 \<or> colon = 58"
    and w: "\<forall>w \<in> set ws. py_isspace w" and l: "is_option_letter l"
    by blast
  from w l have "dropWhile py_isspace (ws @ l # rest) = l # rest"
    by (simp add: dropWhile_append2 option_letter_not_space)
  with s c l show "colon_option s = Some l" by auto
qed

lemma greedy_any_complete:
  "10 \<notin> set mid \<Longrightarrow> colon_option tail \<noteq> None \<Longrightarrow> greedy_any (mid @ tail) \<noteq> None"
proof (induction mid)
  case Nil
  then obtain c cs where t: "tail = c # cs" by (cases tail) simp_all
  with Nil have "c \<noteq> 10" by (auto split: if_splits)
  with Nil t show ?case by (simp split: option.splits)
next
  case (Cons a mid)
  then show ?case by (auto split: option.splits)
qed

lemma greedy_any_none:
  "greedy_any s = None \<Longrightarrow> s = m2 @ t2 \<Longrightarrow> 10 \<notin> set m2 \<Longrightarrow> colon_option t2 = None"
  using greedy_any_complete [of m2 t2] by (cases "colon_option t2") auto

lemma greedy_any_sound:
  "greedy_any s = Some l \<Longrightarrow>
   \<exists>mid tail. s = mid @ tail \<and> 10 \<notin> set mid \<and> colon_option tail = Some l \<and>
     (\<forall>m2 t2. tl tail = m2 @ t2 \<and> 10 \<notin> set m2 \<longrightarrow> colon_option t2 = None)"
proof (induction s)
  case Nil
  then show ?case by simp
next
  case (Cons a s)
  show ?case
  proof (cases "a \<noteq> 10 \<and> greedy_any s \<noteq> None")
    case True
    with Cons.prems have "greedy_any s = Some l" by (auto split: option.splits)
    from Cons.IH [OF this] obtain mid tail where
      "s = mid @ tail" "10 \<notin> set mid" "colon_option tail = Some l"
      "\<forall>m2 t2. tl tail = m2 @ t2 \<and> 10 \<notin> set m2 \<longrightarrow> colon_option t2 = None"
      by blast
    with True have "a # s = (a # mid) @ tail \<and> 10 \<notin> set (a # mid) \<and> colon_option tail = Some l \<and>
      (\<forall>m2 t2. tl tail = m2 @ t2 \<and> 10 \<notin> set m2 \<longrightarrow> colon_option t2 = None)"
      by simp
    then show ?thesis by blast
  next
    case False
    with Cons.prems have c: "colon_option (a # s) = Some l"
      by (auto split: option.splits if_splits)
    then have "a \<noteq> 10" by (auto split: if_splits)
    with False have "greedy_any s = None" by simp
    then have "\<forall>m2 t2. tl (a # s) = m2 @ t2 \<and> 10 \<notin> set m2 \<longrightarrow> colon_option t2 = None"
      using greedy_any_none by auto
    with c have "a # s = [] @ (a # s) \<and> 10 \<notin> set ([] :: nat list) \<and> colon_option (a # s) = Some l \<and>
      (\<forall>m2 t2. tl (a # s) = m2 @ t2 \<and> 10 \<notin> set m2 \<longrightarrow> colon_option t2 = None)"
      by simp
    then show ?thesis by blast
  qed
qed

lemma search_labelled_option_sound:
  "search_labelled_option s = Some l \<Longrightarrow>
   \<exists>pre k rest. s = pre @ k # rest \<and> (k = 31572 \<or> k = 27491 \<or> k = 35299) \<and>
      greedy_any rest = Some l \<and>
      (\<forall>p1 x p2. pre = p1 @ x # p2 \<and> (x = 31572 \<or> x = 27491 \<or> x = 35299) \<longrightarrow>
         greedy_any (p2 @ k # rest) = None)"
proof (induction s)
  case Nil
  then show ?case by simp
next
  case (Cons a s)
  show ?case
  proof (cases "(a = 31572 \<or> a = 27491 \<or> a = 35299) \<and> greedy_any s \<noteq> None")
    case True
    with Cons.prems have "greedy_any s = Some l" by (auto split: option.splits)
    with True have "a # s = [] @ a # s \<and> (a = 31572 \<or> a = 27491 \<or> a = 35299) \<and>
      greedy_any s = Some l \<and>
      (\<forall>p1 x p2. [] = p1 @ x # p2 \<and> (x = 31572 \<or> x = 27491 \<or> x = 35299) \<longrightarrow>
         greedy_any (p2 @ a # s) = None)"
      by simp
    then show ?thesis by blast
  next
    case False
    with Cons.prems have "search_labelled_option s = Some l"
      by (auto split: option.splits if_splits)
    from Cons.IH [OF this] obtain pre k rest where
      s: "s = pre @ k # rest" and k: "k = 31572 \<or> k = 27491 \<or> k = 35299"
      and g: "greedy_any rest = Some l"
      and lm: "\<forall>p1 x p2. pre = p1 @ x # p2 \<and> (x = 31572 \<or> x = 27491 \<or> x = 35299) \<longrightarrow>
         greedy_any (p2 @ k # rest) = None"
      by blast
    have lm': "\<forall>p1 x p2. a # pre = p1 @ x # p2 \<and> (x = 31572 \<or> x = 27491 \<or> x = 35299) \<longrightarrow>
         greedy_any (p2 @ k # rest) = None"
    proof (intro allI impI)
      fix p1 x p2
      assume h: "a # pre = p1 @ x # p2 \<and> (x = 31572 \<or> x = 27491 \<or> x = 35299)"
      show "greedy_any (p2 @ k # rest) = None"
      proof (cases p1)
        case Nil
        with h have "x = a" "p2 = pre" by simp_all
        with False s h show ?thesis by auto
      next
        case (Cons y ys)
        with h have "pre = ys @ x # p2" by simp
        with lm h show ?thesis by blast
      qed
    qed
    have "a # s = (a # pre) @ k # rest" using s by simp
    with k g lm' show ?thesis by blast
  qed
qed

lemma search_labelled_option_complete:
  "k = 31572 \<or> k = 27491 \<or> k = 35299 \<Longrightarrow> greedy_any rest \<noteq> None \<Longrightarrow>
   search_labelled_option (pre @ k # rest) \<noteq> None"
  by (induction pre) (auto split: option.splits)



lemma search_labelled_option_shape:
  assumes "search_labelled_option s = Some l"
  shows "\<exists>pre k mid colon ws rest. s = pre @ k # mid @ colon # ws @ l # rest \<and>
         (k = 31572 \<or> k = 27491 \<or> k = 35299) \<and> 10 \<notin> set mid \<and>
         (colon = 65306 \<or> colon = 58) \<and> (\<forall>w \<in> set ws. py_isspace w) \<and> is_option_letter l \<and>
         (\<forall>m2 t2. ws @ l # rest = m2 @ t2 \<and> 10 \<notin> set m2 \<longrightarrow> colon_option t2 = None) \<and>
         (\<forall>p1 x p2 m2 t2. pre = p1 @ x # p2 \<and> (x = 31572 \<or> x = 27491 \<or> x = 35299) \<and>
            p2 @ k # mid @ colon # ws @ l # rest = m2 @ t2 \<and> 10 \<notin> set m2 \<longrightarrow>
            colon_option t2 = None)"
proof -
  from search_labelled_option_sound [OF assms] obtain pre k rest0 where
    s: "s = pre @ k # rest0" and k: "k = 31572 \<or> k = 27491 \<or> k = 35299"
    and g: "greedy_any rest0 = Some l"
    and lm: "\<forall>p1 x p2. pre = p1 @ x # p2 \<and> (x = 31572 \<or> x = 27491 \<or> x = 35299) \<longrightarrow>
         greedy_any (p2 @ k # rest0) = None"
    by blast
  from greedy_any_sound [OF g] obtain mid tail where
    r: "rest0 = mid @ tail" and m: "10 \<notin> set mid" and c: "colon_option tail = Some l"
    and lg: "\<forall>m2 t2. tl tail = m2 @ t2 \<and> 10 \<notin> set m2 \<longrightarrow> colon_option t2 = None"
    by blast
  from c [unfolded colon_option_iff] obtain colon ws rest where
    t: "tail = colon # ws @ l # rest" and co: "colon = 65306 \<or> colon = 58"
    and w: "\<forall>w \<in> set ws. py_isspace w" and l: "is_option_letter l"
    by blast
  have e: "s = pre @ k # mid @ colon # ws @ l # rest"
    using s r t by simp
  have lg': "\<forall>m2 t2. ws @ l # rest = m2 @ t2 \<and> 10 \<notin> set m2 \<longrightarrow> colon_option t2 = None"
    using lg t by simp
  have lm': "\<forall>p1 x p2 m2 t2. pre = p1 @ x # p2 \<and> (x = 31572 \<or> x = 27491 \<or> x = 35299) \<and>
            p2 @ k # mid @ colon # ws @ l # rest = m2 @ t2 \<and> 10 \<notin> set m2 \<longrightarrow>
            colon_option t2 = None"
  proof (intro allI impI)
    fix p1 x p2 m2 t2
    assume h: "pre = p1 @ x # p2 \<and> (x = 31572 \<or> x = 27491 \<or> x = 35299) \<and>
            p2 @ k # mid @ colon # ws @ l # rest = m2 @ t2 \<and> 10 \<notin> set m2"
    with lm have "greedy_any (p2 @ k # rest0) = None" by blast
    moreover from h r t have "p2 @ k # rest0 = m2 @ t2" by simp
    ultimately show "colon_option t2 = None"
      using h by (blast intro: greedy_any_none)
  qed
  from e k m co w l lg' lm' show ?thesis by blast
qed

lemma search_labelled_option_found:
  assumes "k = 31572 \<or> k = 27491 \<or> k = 35299" and "10 \<notin> set mid"
    and "colon = 65306 \<or> colon = 58" and "\<forall>w \<in> set ws. py_isspace w" and "is_option_letter l"
  shows "search_labelled_option (pre @ k # mid @ colon # ws @ l # rest) \<noteq> None"
proof -
  have "colon_option (colon # ws @ l # rest) = Some l"
    unfolding colon_option_iff using assms(3-5) by blast
  then have "greedy_any (mid @ colon # ws @ l # rest) \<noteq> None"
    using greedy_any_complete [OF assms(2), of "colon # ws @ l # rest"] by simp
  from search_labelled_option_complete [OF assms(1) this] show ?thesis .
qed

lemma extract_option_only_labelled: "extract_option db only_labelled = ascii ''B''"
  by (simp add: extract_option_def only_labelled_def ascii_def is_option_letter_def upper_option_def
        py_isspace_def)

lemma extract_option_bare_before_labelled: "extract_option db bare_before_labelled = ascii ''A''"
  by (simp add: extract_option_def bare_before_labelled_def ascii_def is_option_letter_def
        upper_option_def is_word_def ascii_alnum_def)

lemma extract_option_two_labelled: "extract_option db two_labelled = ascii ''B''"
  by (simp add: extract_option_def two_labelled_def ascii_def is_option_letter_def upper_option_def
        is_word_def ascii_alnum_def py_isspace_def)

lemma extract_option_42: "extract_option db (ascii ''42'') = []"
  by (simp add: extract_option_def ascii_def is_option_letter_def)

lemma only_labelled_patterns:
  "search_bare_option basic_db None only_labelled = None \<and>
   search_labelled_option only_labelled = Some 66"
  by (simp add: only_labelled_def is_option_letter_def is_word_def ascii_alnum_def basic_db_def
        py_isspace_def)

text \<open>
  C6. When no line of the response starts with an answer label or a correct-option
  label, the answer is the fallback: the last non-blank line, stripped, or the whole
  stripped response when every line is blank; the correct option is what the two patterns
  extract from it, nothing or one letter from A to D in upper case; and when that last
  non-blank line is a bare C, answer and option are both C. A response with a line that
  is the answer label followed by 42, and no later line with the answer label, has the
  answer 42.

  The two patterns: the option is the upper case (of a letter a to d, that letter less 32)
  of what the first pattern finds, and of what the second finds when the first finds
  nothing. The first pattern finds the leftmost option letter with a word boundary on both
  sides, and finds one whenever there is one. The part of the second pattern from the colon
  on matches a fullwidth or ASCII colon, whitespace and an option letter. The second
  pattern finds a letter exactly when a character of its class is followed, with no
  newline between, by such a part; it takes the leftmost character of the class for which
  there is one and the last such part after it. So the letter B that follows a fullwidth
  colon and precedes an ideograph is found, by the second pattern alone when the ideograph
  is a word character; a bare A before a labelled B gives A; of two labelled letters the
  later one is taken; and 42 has no option.
\<close>

theorem parse_answer_fallback:
  "((\<forall>l \<in> set (split_on 10 (strip t)). \<not> writes_answer l \<and> \<not> writes_correct_option l) \<longrightarrow>
      answer (parse_answer db t) = fallback_answer t \<and>
      (non_empty_lines (split_on 10 (strip t)) \<noteq> [] \<longrightarrow>
         fallback_answer t = last (non_empty_lines (split_on 10 (strip t)))) \<and>
      (non_empty_lines (split_on 10 (strip t)) = [] \<longrightarrow> fallback_answer t = strip t) \<and>
      correct_option (parse_answer db t) = extract_option db (fallback_answer t) \<and>
      (extract_option db (fallback_answer t) = [] \<or>
       (\<exists>c. extract_option db (fallback_answer t) = [c] \<and> 65 \<le> c \<and> c \<le> 68)) \<and>
      (non_empty_lines (split_on 10 (strip t)) \<noteq> [] \<and>
       last (non_empty_lines (split_on 10 (strip t))) = ascii ''C'' \<longrightarrow>
         answer (parse_answer db t) = ascii ''C'' \<and> correct_option (parse_answer db t) = ascii ''C'')) \<and>
   (\<forall>pre l post. split_on 10 (strip t) = pre @ l # post \<and> strip l = answer_42 \<and>
      (\<forall>x \<in> set post. \<not> writes_answer x) \<longrightarrow> answer (parse_answer db t) = ascii ''42'') \<and>
   (\<forall>s. extract_option db s =
      (case search_bare_option db None s of
         Some c \<Rightarrow> [upper_option c]
       | None \<Rightarrow> (case search_labelled_option s of Some c \<Rightarrow> [upper_option c] | None \<Rightarrow> []))) \<and>
   (\<forall>c. is_option_letter c \<longrightarrow>
      65 \<le> upper_option c \<and> upper_option c \<le> 68 \<and> (upper_option c = c \<or> upper_option c + 32 = c)) \<and>
   (\<forall>s c. search_bare_option db None s = Some c \<longrightarrow>
      (\<exists>pre post. s = pre @ c # post \<and> is_option_letter c \<and>
         word_boundary db (if pre = [] then None else Some (last pre)) (Some c) \<and>
         word_boundary db (Some c) (case post of [] \<Rightarrow> None | n # _ \<Rightarrow> Some n) \<and>
         (\<forall>p1 x p2. pre = p1 @ x # p2 \<longrightarrow>
            \<not> (is_option_letter x \<and>
               word_boundary db (if p1 = [] then None else Some (last p1)) (Some x) \<and>
               word_boundary db (Some x) (case p2 @ c # post of [] \<Rightarrow> None | n # _ \<Rightarrow> Some n))))) \<and>
   (\<forall>pre c post. is_option_letter c \<and>
      word_boundary db (if pre = [] then None else Some (last pre)) (Some c) \<and>
      word_boundary db (Some c) (case post of [] \<Rightarrow> None | n # _ \<Rightarrow> Some n) \<longrightarrow>
      search_bare_option db None (pre @ c # post) \<noteq> None) \<and>
   (\<forall>s l. colon_option s = Some l \<longleftrightarrow>
      (\<exists>colon ws rest. s = colon # ws @ l # rest \<and> (colon = 65306 \<or> colon = 58) \<and>
         (\<forall>w \<in> set ws. py_isspace w) \<and> is_option_letter l)) \<and>
   (\<forall>s l. search_labelled_option s = Some l \<longrightarrow>
      (\<exists>pre k mid colon ws rest. s = pre @ k # mid @ colon # ws @ l # rest \<and>
         (k = 31572 \<or> k = 27491 \<or> k = 35299) \<and> 10 \<notin> set mid \<and>
         (colon = 65306 \<or> colon = 58) \<and> (\<forall>w \<in> set ws. py_isspace w) \<and> is_option_letter l \<and>
         (\<forall>m2 t2. ws @ l # rest = m2 @ t2 \<and> 10 \<notin> set m2 \<longrightarrow> colon_option t2 = None) \<and>
         (\<forall>p1 x p2 m2 t2. pre = p1 @ x # p2 \<and> (x = 31572 \<or> x = 27491 \<or> x = 35299) \<and>
            p2 @ k # mid @ colon # ws @ l # rest = m2 @ t2 \<and> 10 \<notin> set m2 \<longrightarrow>
            colon_option t2 = None))) \<and>
   (\<forall>pre k mid colon ws l rest.
      (k = 31572 \<or> k = 27491 \<or> k = 35299) \<and> 10 \<notin> set mid \<and> (colon = 65306 \<or> colon = 58) \<and>
      (\<forall>w \<in> set ws. py_isspace w) \<and> is_option_letter l \<longrightarrow>
      search_labelled_option (pre @ k # mid @ colon # ws @ l # rest) \<noteq> None) \<and>
   extract_option db only_labelled = ascii ''B'' \<and>
   extract_option db bare_before_labelled = ascii ''A'' \<and>
   extract_option db two_labelled = ascii ''B'' \<and>
   extract_option db (ascii ''42'') = []"
proof -
  have a: "(\<forall>l \<in> set (split_on 10 (strip t)). \<not> writes_answer l \<and> \<not> writes_correct_option l) \<longrightarrow>
      answer (parse_answer db t) = fallback_answer t \<and>
      (non_empty_lines (split_on 10 (strip t)) \<noteq> [] \<longrightarrow>
         fallback_answer t = last (non_empty_lines (split_on 10 (strip t)))) \<and>
      (non_empty_lines (split_on 10 (strip t)) = [] \<longrightarrow> fallback_answer t = strip t) \<and>
      correct_option (parse_answer db t) = extract_option db (fallback_answer t) \<and>
      (extract_option db (fallback_answer t) = [] \<or>
       (\<exists>c. extract_option db (fallback_answer t) = [c] \<and> 65 \<le> c \<and> c \<le> 68)) \<and>
      (non_empty_lines (split_on 10 (strip t)) \<noteq> [] \<and>
       last (non_empty_lines (split_on 10 (strip t))) = ascii ''C'' \<longrightarrow>
         answer (parse_answer db t) = ascii ''C'' \<and> correct_option (parse_answer db t) = ascii ''C'')"
  proof
    assume h: "\<forall>l \<in> set (split_on 10 (strip t)). \<not> writes_answer l \<and> \<not> writes_correct_option l"
    note p = parse_answer_no_label [OF h]
    have f1: "non_empty_lines (split_on 10 (strip t)) \<noteq> [] \<longrightarrow>
        fallback_answer t = last (non_empty_lines (split_on 10 (strip t)))"
      by (simp add: fallback_answer_def Let_def)
    have f2: "non_empty_lines (split_on 10 (strip t)) = [] \<longrightarrow> fallback_answer t = strip t"
      by (simp add: fallback_answer_def Let_def)
    have c: "non_empty_lines (split_on 10 (strip t)) \<noteq> [] \<and>
        last (non_empty_lines (split_on 10 (strip t))) = ascii ''C'' \<longrightarrow>
        answer (parse_answer db t) = ascii ''C'' \<and> correct_option (parse_answer db t) = ascii ''C''"
      using f1 by (simp add: p extract_option_bare_c)
    from p f1 f2 c extract_option_range [of db "fallback_answer t"]
    show "answer (parse_answer db t) = fallback_answer t \<and>
      (non_empty_lines (split_on 10 (strip t)) \<noteq> [] \<longrightarrow>
         fallback_answer t = last (non_empty_lines (split_on 10 (strip t)))) \<and>
      (non_empty_lines (split_on 10 (strip t)) = [] \<longrightarrow> fallback_answer t = strip t) \<and>
      correct_option (parse_answer db t) = extract_option db (fallback_answer t) \<and>
      (extract_option db (fallback_answer t) = [] \<or>
       (\<exists>c. extract_option db (fallback_answer t) = [c] \<and> 65 \<le> c \<and> c \<le> 68)) \<and>
      (non_empty_lines (split_on 10 (strip t)) \<noteq> [] \<and>
       last (non_empty_lines (split_on 10 (strip t))) = ascii ''C'' \<longrightarrow>
         answer (parse_answer db t) = ascii ''C'' \<and> correct_option (parse_answer db t) = ascii ''C'')"
      by blast
  qed
  have b: "\<forall>pre l post. split_on 10 (strip t) = pre @ l # post \<and> strip l = answer_42 \<and>
      (\<forall>x \<in> set post. \<not> writes_answer x) \<longrightarrow> answer (parse_answer db t) = ascii ''42''"
    using parse_answer_42_line by blast
  have e: "\<forall>s. extract_option db s =
      (case search_bare_option db None s of
         Some c \<Rightarrow> [upper_option c]
       | None \<Rightarrow> (case search_labelled_option s of Some c \<Rightarrow> [upper_option c] | None \<Rightarrow> []))"
    by (simp add: extract_option_def)
  have u: "\<forall>c. is_option_letter c \<longrightarrow>
      65 \<le> upper_option c \<and> upper_option c \<le> 68 \<and> (upper_option c = c \<or> upper_option c + 32 = c)"
    by (auto simp: is_option_letter_def upper_option_def)
  have s1: "\<forall>s c. search_bare_option db None s = Some c \<longrightarrow>
      (\<exists>pre post. s = pre @ c # post \<and> is_option_letter c \<and>
         word_boundary db (if pre = [] then None else Some (last pre)) (Some c) \<and>
         word_boundary db (Some c) (case post of [] \<Rightarrow> None | n # _ \<Rightarrow> Some n) \<and>
         (\<forall>p1 x p2. pre = p1 @ x # p2 \<longrightarrow>
            \<not> (is_option_letter x \<and>
               word_boundary db (if p1 = [] then None else Some (last p1)) (Some x) \<and>
               word_boundary db (Some x) (case p2 @ c # post of [] \<Rightarrow> None | n # _ \<Rightarrow> Some n))))"
    by (intro allI impI) (rule search_bare_option_sound)
  have c1: "\<forall>pre c post. is_option_letter c \<and>
      word_boundary db (if pre = [] then None else Some (last pre)) (Some c) \<and>
      word_boundary db (Some c) (case post of [] \<Rightarrow> None | n # _ \<Rightarrow> Some n) \<longrightarrow>
      search_bare_option db None (pre @ c # post) \<noteq> None"
    by (intro allI impI) (elim conjE, rule search_bare_option_complete)
  have co: "\<forall>s l. colon_option s = Some l \<longleftrightarrow>
      (\<exists>colon ws rest. s = colon # ws @ l # rest \<and> (colon = 65306 \<or> colon = 58) \<and>
         (\<forall>w \<in> set ws. py_isspace w) \<and> is_option_letter l)"
    by (intro allI) (rule colon_option_iff)
  have s2: "\<forall>s l. search_labelled_option s = Some l \<longrightarrow>
      (\<exists>pre k mid colon ws rest. s = pre @ k # mid @ colon # ws @ l # rest \<and>
         (k = 31572 \<or> k = 27491 \<or> k = 35299) \<and> 10 \<notin> set mid \<and>
         (colon = 65306 \<or> colon = 58) \<and> (\<forall>w \<in> set ws. py_isspace w) \<and> is_option_letter l \<and>
         (\<forall>m2 t2. ws @ l # rest = m2 @ t2 \<and> 10 \<notin> set m2 \<longrightarrow> colon_option t2 = None) \<and>
         (\<forall>p1 x p2 m2 t2. pre = p1 @ x # p2 \<and> (x = 31572 \<or> x = 27491 \<or> x = 35299) \<and>
            p2 @ k # mid @ colon # ws @ l # rest = m2 @ t2 \<and> 10 \<notin> set m2 \<longrightarrow>
            colon_option t2 = None))"
    by (intro allI impI) (rule search_labelled_option_shape)
  have c2: "\<forall>pre k mid colon ws l rest.
      (k = 31572 \<or> k = 27491 \<or> k = 35299) \<and> 10 \<notin> set mid \<and> (colon = 65306 \<or> colon = 58) \<and>
      (\<forall>w \<in> set ws. py_isspace w) \<and> is_option_letter l \<longrightarrow>
      search_labelled_option (pre @ k # mid @ colon # ws @ l # rest) \<noteq> None"
    by (intro allI impI) (elim conjE, rule search_labelled_option_found)
  have i: "extract_option db only_labelled = ascii ''B'' \<and>
   extract_option db bare_before_labelled = ascii ''A'' \<and>
   extract_option db two_labelled = ascii ''B'' \<and>
   extract_option db (ascii ''42'') = []"
    by (simp only: extract_option_only_labelled extract_option_bare_before_labelled
          extract_option_two_labelled extract_option_42)
  show ?thesis
    by (rule conjI [OF a], rule conjI [OF b], rule conjI [OF e], rule conjI [OF u],
        rule conjI [OF s1], rule conjI [OF c1], rule conjI [OF co], rule conjI [OF s2],
        rule conjI [OF c2], rule i)
qed


lemma bare_c_lines:
  "split_on 10 (strip bare_c) = [[24605, 32771, 36942, 31243, 58, 32, 120], [], [67]]"
  by (simp add: bare_c_def strip_def lstrip_def rstrip_def py_isspace_def)

lemma bare_c_no_label:
  "\<forall>l \<in> set (split_on 10 (strip bare_c)). \<not> writes_answer l \<and> \<not> writes_correct_option l"
  unfolding bare_c_lines
  by (simp add: writes_answer_def writes_correct_option_def has_label_def label_answer_def
        label_correct_option_def startswith_def strip_def lstrip_def rstrip_def py_isspace_def)

lemma bare_c_non_empty:
  "non_empty_lines (split_on 10 (strip bare_c)) = [[24605, 32771, 36942, 31243, 58, 32, 120], ascii ''C'']"
  unfolding bare_c_lines
  by (simp add: non_empty_lines_def strip_def lstrip_def rstrip_def py_isspace_def ascii_def)

lemma answer_42_lines: "split_on 10 (strip answer_42) = [] @ answer_42 # []"
  by (simp add: answer_42_def strip_def lstrip_def rstrip_def py_isspace_def)

lemma answer_42_strip: "strip answer_42 = answer_42"
  by (simp add: answer_42_def strip_def lstrip_def rstrip_def py_isspace_def)

lemma only_labelled_lines: "split_on 10 (strip only_labelled) = [only_labelled]"
  by (simp add: only_labelled_def strip_def lstrip_def rstrip_def py_isspace_def)

lemma only_labelled_no_label:
  "\<forall>l \<in> set (split_on 10 (strip only_labelled)). \<not> writes_answer l \<and> \<not> writes_correct_option l"
  unfolding only_labelled_lines
  by (simp add: only_labelled_def writes_answer_def writes_correct_option_def has_label_def
        label_answer_def label_correct_option_def startswith_def strip_def lstrip_def rstrip_def
        py_isspace_def)

lemma only_labelled_fallback: "fallback_answer only_labelled = only_labelled"
  unfolding fallback_answer_def only_labelled_lines
  by (simp add: non_empty_lines_def only_labelled_def strip_def lstrip_def rstrip_def py_isspace_def)

theorem parse_answer_fallback_witness:
  "non_empty_lines (split_on 10 (strip bare_c)) \<noteq> [] \<and>
   last (non_empty_lines (split_on 10 (strip bare_c))) = ascii ''C'' \<and>
   answer (parse_answer basic_db bare_c) = ascii ''C'' \<and>
   correct_option (parse_answer basic_db bare_c) = ascii ''C'' \<and>
   split_on 10 (strip answer_42) = [] @ answer_42 # [] \<and> strip answer_42 = answer_42 \<and>
   answer (parse_answer basic_db answer_42) = ascii ''42'' \<and>
   search_bare_option basic_db None only_labelled = None \<and>
   search_labelled_option only_labelled = Some 66 \<and>
   answer (parse_answer basic_db only_labelled) = only_labelled \<and>
   correct_option (parse_answer basic_db only_labelled) = ascii ''B''"
proof -
  have n: "non_empty_lines (split_on 10 (strip bare_c)) \<noteq> []"
    and l: "last (non_empty_lines (split_on 10 (strip bare_c))) = ascii ''C''"
    by (simp_all add: bare_c_non_empty)
  have e: "\<forall>x \<in> set ([] :: ustr list). \<not> writes_answer x"
    by simp
  note t1 = parse_answer_fallback [of bare_c basic_db, THEN conjunct1, THEN mp, OF bare_c_no_label]
  note t1c = t1 [THEN conjunct2, THEN conjunct2, THEN conjunct2, THEN conjunct2, THEN conjunct2,
                 THEN mp, OF conjI [OF n l]]
  note t2 = parse_answer_fallback [of answer_42 basic_db, THEN conjunct2, THEN conjunct1,
              THEN spec [of _ "[]"], THEN spec [of _ answer_42], THEN spec [of _ "[]"], THEN mp,
              OF conjI [OF answer_42_lines conjI [OF answer_42_strip e]]]
  note t3 = parse_answer_fallback [of only_labelled basic_db, THEN conjunct1, THEN mp,
              OF only_labelled_no_label]
  have a3: "answer (parse_answer basic_db only_labelled) = only_labelled"
    using t3 [THEN conjunct1] by (simp add: only_labelled_fallback)
  have o3: "correct_option (parse_answer basic_db only_labelled) = ascii ''B''"
    using t3 [THEN conjunct2, THEN conjunct2, THEN conjunct2, THEN conjunct1]
    by (simp add: only_labelled_fallback extract_option_only_labelled)
  show ?thesis
    by (intro conjI n l t1c [THEN conjunct1] t1c [THEN conjunct2] answer_42_lines answer_42_strip t2
          only_labelled_patterns [THEN conjunct1] only_labelled_patterns [THEN conjunct2] a3 o3)
qed

subsection \<open>The solver never raises\<close>






section \<open>Properties of the trigger handler\<close>

lemma show_error_total: "\<exists>s'. show_error env msg s = Inr s' \<and> is_processing s' = is_processing s"
  by (auto simp: show_error_def split: option.splits)

lemma handler_busy:
  assumes "is_processing s"
  shows "on_hotkey_triggered env s = show_status env busy_message s"
  using assms by (simp add: on_hotkey_triggered_def)

lemma show_status_state:
  "show_status env msg s = Inr s' \<Longrightarrow>
   is_processing s' = is_processing s \<and> total_requests s' = total_requests s \<and>
   successful_answers s' = successful_answers s \<and> failed_answers s' = failed_answers s \<and>
   gui_log s' = (if has_root env then gui_log s @ [ShowStatus msg] else gui_log s)"
  by (auto simp: show_status_def split: if_splits option.splits)

lemma show_status_pipeline:
  "show_status (env\<lparr>process_question := p\<rparr>) msg s = show_status env msg s"
  by (simp add: show_status_def)

lemma handler_accepted:
  assumes "\<not> is_processing s"
  shows "\<exists>s'. on_hotkey_triggered env s = Inr s' \<and> \<not> is_processing s'"
proof -
  let ?s0 = "s\<lparr>is_processing := True, total_requests := total_requests s + 1\<rparr>"
  show ?thesis
  proof (cases "handler_try env ?s0")
    case (Inr s1)
    with assms show ?thesis by (simp add: on_hotkey_triggered_def Let_def)
  next
    case (Inl es)
    obtain e s1 where es: "es = (e, s1)" by (cases es)
    from show_error_total [of env "FailedException e" "s1\<lparr>failed_answers := failed_answers s1 + 1\<rparr>"]
    obtain s3 where "show_error env (FailedException e) (s1\<lparr>failed_answers := failed_answers s1 + 1\<rparr>) = Inr s3"
      by blast
    with assms Inl es show ?thesis by (simp add: on_hotkey_triggered_def Let_def)
  qed
qed

text \<open>
  C9. A trigger that arrives while \<open>is_processing\<close> is set does nothing but
  the status notification: the result does not depend on the pipeline step, which is not
  run, and when the notification returns, the flag is still set, the counters are
  unchanged and nothing is queued. A trigger that arrives while the flag is clear returns
  without an exception and with the flag clear again, whether the pipeline step returns a
  success, a structured failure or nothing, or raises.
\<close>

theorem on_hotkey_triggered_busy_flag:
  "(is_processing s \<longrightarrow>
      on_hotkey_triggered env s = show_status env busy_message s \<and>
      (\<forall>p. on_hotkey_triggered (env\<lparr>process_question := p\<rparr>) s = on_hotkey_triggered env s) \<and>
      (\<forall>s'. on_hotkey_triggered env s = Inr s' \<longrightarrow>
         is_processing s' \<and> total_requests s' = total_requests s \<and>
         successful_answers s' = successful_answers s \<and> failed_answers s' = failed_answers s \<and>
         gui_log s' = (if has_root env then gui_log s @ [ShowStatus busy_message] else gui_log s))) \<and>
   (\<not> is_processing s \<longrightarrow> (\<exists>s'. on_hotkey_triggered env s = Inr s' \<and> \<not> is_processing s'))"
proof -
  have a: "is_processing s \<longrightarrow>
      on_hotkey_triggered env s = show_status env busy_message s \<and>
      (\<forall>p. on_hotkey_triggered (env\<lparr>process_question := p\<rparr>) s = on_hotkey_triggered env s) \<and>
      (\<forall>s'. on_hotkey_triggered env s = Inr s' \<longrightarrow>
         is_processing s' \<and> total_requests s' = total_requests s \<and>
         successful_answers s' = successful_answers s \<and> failed_answers s' = failed_answers s \<and>
         gui_log s' = (if has_root env then gui_log s @ [ShowStatus busy_message] else gui_log s))"
  proof
    assume b: "is_processing s"
    have 1: "on_hotkey_triggered env s = show_status env busy_message s"
      by (rule handler_busy [OF b])
    have 2: "\<forall>p. on_hotkey_triggered (env\<lparr>process_question := p\<rparr>) s = on_hotkey_triggered env s"
      by (simp add: handler_busy [OF b] show_status_pipeline)
    have 3: "\<forall>s'. on_hotkey_triggered env s = Inr s' \<longrightarrow>
         is_processing s' \<and> total_requests s' = total_requests s \<and>
         successful_answers s' = successful_answers s \<and> failed_answers s' = failed_answers s \<and>
         gui_log s' = (if has_root env then gui_log s @ [ShowStatus busy_message] else gui_log s)"
    proof (intro allI impI)
      fix s'
      assume "on_hotkey_triggered env s = Inr s'"
      then have "show_status env busy_message s = Inr s'"
        by (simp only: 1)
      from show_status_state [OF this] b
      show "is_processing s' \<and> total_requests s' = total_requests s \<and>
         successful_answers s' = successful_answers s \<and> failed_answers s' = failed_answers s \<and>
         gui_log s' = (if has_root env then gui_log s @ [ShowStatus busy_message] else gui_log s)"
        by simp
    qed
    from 1 2 3 show "on_hotkey_triggered env s = show_status env busy_message s \<and>
      (\<forall>p. on_hotkey_triggered (env\<lparr>process_question := p\<rparr>) s = on_hotkey_triggered env s) \<and>
      (\<forall>s'. on_hotkey_triggered env s = Inr s' \<longrightarrow>
         is_processing s' \<and> total_requests s' = total_requests s \<and>
         successful_answers s' = successful_answers s \<and> failed_answers s' = failed_answers s \<and>
         gui_log s' = (if has_root env then gui_log s @ [ShowStatus busy_message] else gui_log s))"
      by blast
  qed
  have c: "\<not> is_processing s \<longrightarrow> (\<exists>s'. on_hotkey_triggered env s = Inr s' \<and> \<not> is_processing s')"
    using handler_accepted [of s env] by blast
  from a c show ?thesis by blast
qed

theorem on_hotkey_triggered_busy_flag_witness:
  "is_processing busy_state \<and>
   on_hotkey_triggered crashing_env busy_state = show_status crashing_env busy_message busy_state \<and>
   \<not> is_processing idle_state \<and>
   (\<exists>s'. on_hotkey_triggered crashing_env idle_state = Inr s' \<and> \<not> is_processing s')"
proof -
  have b: "is_processing busy_state" by (simp add: busy_state_def)
  have i: "\<not> is_processing idle_state" by (simp add: idle_state_def)
  from on_hotkey_triggered_busy_flag [of busy_state crashing_env] b
  have 1: "on_hotkey_triggered crashing_env busy_state = show_status crashing_env busy_message busy_state"
    by blast
  from on_hotkey_triggered_busy_flag [of idle_state crashing_env] i
  have 2: "\<exists>s'. on_hotkey_triggered crashing_env idle_state = Inr s' \<and> \<not> is_processing s'"
    by blast
  from b i 1 2 show ?thesis by blast
qed

end
